theory Spec2Isabelle
  imports Complex_Main "HOL-Library.Word"
begin

section \<open>Machine numbers\<close>

text \<open>
  Go's \<open>int32\<close>, \<open>uint32\<close> and \<open>int64\<close> are words; \<open>sint\<close> reads a signed value,
  \<open>uint\<close> an unsigned one, and \<open>+\<close>, \<open>-\<close> wrap around as Go's do.  Go's \<open>int\<close> is
  modelled by \<open>int\<close>: the only thing the autoscaler does with an \<open>int\<close> is to compare
  it or to convert it.
\<close>

type_synonym int32 = "32 word"
type_synonym uint32 = "32 word"
type_synonym int64 = "64 word"

section \<open>The watch set of the Scaler\<close>

text \<open>
  \<open>vertexList\<close> is a \<open>container/list\<close>: a sequence of heap elements, each holding a
  key.  An element is modelled by its identity (a number, allocated from \<open>nextElement\<close>)
  paired with its value; \<open>vertexMap\<close> maps a key to the identity of its element.
  \<open>vertexMetricsCache\<close> and \<open>daemonClientsCache\<close> are the two LRU caches, most
  recently used entry first.
\<close>

record scaler =
  vertexMap :: "string \<rightharpoonup> nat"
  vertexList :: "(nat \<times> string) list"
  nextElement :: nat
  vertexMetricsCache :: "(string \<times> int64) list"
  daemonClientsCache :: "(string \<times> string) list"

definition NewScaler :: scaler where
  "NewScaler = \<lparr> vertexMap = Map.empty, vertexList = [], nextElement = 0,
                  vertexMetricsCache = [], daemonClientsCache = [] \<rparr>"

definition Contains :: "scaler \<Rightarrow> string \<Rightarrow> bool" where
  "Contains s key = (vertexMap s key \<noteq> None)"

definition Length :: "scaler \<Rightarrow> nat" where
  "Length s = length (vertexList s)"

text \<open>\<open>list.PushBack\<close>: a new element at the back; its identity is returned.\<close>

definition PushBack :: "string \<Rightarrow> scaler \<Rightarrow> nat \<times> scaler" where
  "PushBack key s =
     (nextElement s,
      s\<lparr> vertexList := vertexList s @ [(nextElement s, key)],
         nextElement := Suc (nextElement s) \<rparr>)"

text \<open>\<open>list.Remove\<close>: the element with that identity leaves the list.\<close>

definition Remove :: "nat \<Rightarrow> scaler \<Rightarrow> scaler" where
  "Remove e s = s\<lparr> vertexList := filter (\<lambda>p. fst p \<noteq> e) (vertexList s) \<rparr>"

definition StartWatching :: "string \<Rightarrow> scaler \<Rightarrow> scaler" where
  "StartWatching key s =
     (case vertexMap s key of
        None \<Rightarrow> (let (e, s') = PushBack key s in s'\<lparr> vertexMap := (vertexMap s')(key \<mapsto> e) \<rparr>)
      | Some _ \<Rightarrow> s)"

definition StopWatching :: "string \<Rightarrow> scaler \<Rightarrow> scaler" where
  "StopWatching key s =
     (case vertexMap s key of
        Some e \<Rightarrow> (let s' = Remove e s in s'\<lparr> vertexMap := (vertexMap s')(key := None) \<rparr>)
      | None \<Rightarrow> s)"

text \<open>The keys of the list, front to back.\<close>

definition watchedKeys :: "scaler \<Rightarrow> string list" where
  "watchedKeys s = map snd (vertexList s)"

datatype watch_op = Start string | Stop string

fun apply_watch_op :: "watch_op \<Rightarrow> scaler \<Rightarrow> scaler" where
  "apply_watch_op (Start key) s = StartWatching key s"
| "apply_watch_op (Stop key) s = StopWatching key s"

fun run_watch_ops :: "watch_op list \<Rightarrow> scaler \<Rightarrow> scaler" where
  "run_watch_ops [] s = s"
| "run_watch_ops (x # xs) s = run_watch_ops xs (apply_watch_op x s)"

text \<open>
  The invariant that ties the map to the list: every list element is the one its key is
  mapped to, every mapped key has its element in the list, identities and keys are
  unique, and identities not yet allocated are not in use.
\<close>

definition watch_inv :: "scaler \<Rightarrow> bool" where
  "watch_inv s \<longleftrightarrow>
     distinct (map fst (vertexList s)) \<and>
     distinct (map snd (vertexList s)) \<and>
     (\<forall>k e. vertexMap s k = Some e \<longleftrightarrow> (e, k) \<in> set (vertexList s)) \<and>
     (\<forall>p \<in> set (vertexList s). fst p < nextElement s)"

section \<open>Floating-point numbers\<close>

text \<open>
  A \<open>float64\<close> is either a finite number, modelled by the real it denotes, or one of
  the special values.  An arithmetic operation of IEEE 754 computes the exact result
  and rounds it to the nearest \<open>float64\<close>, which is infinite when the result is too
  large.  That rounding is \<open>nearest\<close>, a parameter of the platform: what is proved of
  the autoscaler holds however the platform rounds.  Division by zero gives the special
  values as IEEE division does; every zero divisor of the autoscaler is the conversion
  of an integer, hence positive zero.

  Conversion of a \<open>float64\<close> to an integer type discards the fraction.  When the value
  does not fit the type (or is not finite) Go leaves the result to the implementation:
  the model takes it from the platform too.
\<close>

datatype float64 = Num real | PosInf | NegInf | NaN

record platform =
  nearest :: "real \<Rightarrow> float64"
  float64ToInt32 :: "float64 \<Rightarrow> int32"
  float64ToInt64 :: "float64 \<Rightarrow> int64"

text \<open>\<open>float64(i)\<close> for an integer: the nearest \<open>float64\<close>.\<close>

definition toFloat64 :: "platform \<Rightarrow> int \<Rightarrow> float64" where
  "toFloat64 pf i = nearest pf (of_int i)"

text \<open>
  The conversion of a count of seconds, in the two time gates, is taken exactly, as is
  the elapsed time that the library's \<open>Duration.Seconds\<close> returns.
\<close>

definition float64_of_int :: "int \<Rightarrow> float64" where
  "float64_of_int i = Num (of_int i)"

fun fdiv :: "platform \<Rightarrow> float64 \<Rightarrow> float64 \<Rightarrow> float64" where
  "fdiv pf (Num a) (Num b) =
     (if b = 0 then (if a = 0 then NaN else if 0 < a then PosInf else NegInf)
      else nearest pf (a / b))"
| "fdiv pf (Num a) PosInf = Num 0"
| "fdiv pf (Num a) NegInf = Num 0"
| "fdiv pf PosInf (Num b) = (if 0 \<le> b then PosInf else NegInf)"
| "fdiv pf NegInf (Num b) = (if 0 \<le> b then NegInf else PosInf)"
| "fdiv pf _ _ = NaN"

fun fmul :: "platform \<Rightarrow> float64 \<Rightarrow> float64 \<Rightarrow> float64" where
  "fmul pf (Num a) (Num b) = nearest pf (a * b)"
| "fmul pf PosInf (Num b) = (if b = 0 then NaN else if 0 < b then PosInf else NegInf)"
| "fmul pf NegInf (Num b) = (if b = 0 then NaN else if 0 < b then NegInf else PosInf)"
| "fmul pf (Num a) PosInf = (if a = 0 then NaN else if 0 < a then PosInf else NegInf)"
| "fmul pf (Num a) NegInf = (if a = 0 then NaN else if 0 < a then NegInf else PosInf)"
| "fmul pf PosInf PosInf = PosInf"
| "fmul pf NegInf NegInf = PosInf"
| "fmul pf PosInf NegInf = NegInf"
| "fmul pf NegInf PosInf = NegInf"
| "fmul pf _ _ = NaN"

fun fadd :: "platform \<Rightarrow> float64 \<Rightarrow> float64 \<Rightarrow> float64" where
  "fadd pf (Num a) (Num b) = nearest pf (a + b)"
| "fadd pf PosInf (Num b) = PosInf"
| "fadd pf NegInf (Num b) = NegInf"
| "fadd pf (Num a) PosInf = PosInf"
| "fadd pf (Num a) NegInf = NegInf"
| "fadd pf PosInf PosInf = PosInf"
| "fadd pf NegInf NegInf = NegInf"
| "fadd pf _ _ = NaN"

text \<open>The comparisons \<open><\<close>, \<open>>=\<close> and \<open>==\<close>: false whenever a side is \<open>NaN\<close>.\<close>

fun fless :: "float64 \<Rightarrow> float64 \<Rightarrow> bool" where
  "fless (Num a) (Num b) = (a < b)"
| "fless (Num a) PosInf = True"
| "fless NegInf (Num b) = True"
| "fless NegInf PosInf = True"
| "fless _ _ = False"

fun feq :: "float64 \<Rightarrow> float64 \<Rightarrow> bool" where
  "feq (Num a) (Num b) = (a = b)"
| "feq PosInf PosInf = True"
| "feq NegInf NegInf = True"
| "feq _ _ = False"

definition fge :: "float64 \<Rightarrow> float64 \<Rightarrow> bool" where
  "fge a b = (fless b a \<or> feq a b)"

text \<open>
  \<open>math.Round\<close>: the nearest integer, halves away from zero (it is a \<open>float64\<close>
  whenever the argument is one, so nothing is rounded a second time).
\<close>

definition round_half_away :: "real \<Rightarrow> int" where
  "round_half_away x = (if 0 \<le> x then \<lfloor>x + 1 / 2\<rfloor> else \<lceil>x - 1 / 2\<rceil>)"

fun math_Round :: "float64 \<Rightarrow> float64" where
  "math_Round (Num x) = Num (of_int (round_half_away x))"
| "math_Round f = f"

definition trunc_toward_zero :: "real \<Rightarrow> int" where
  "trunc_toward_zero x = (if 0 \<le> x then \<lfloor>x\<rfloor> else \<lceil>x\<rceil>)"

definition int32_of_float64 :: "platform \<Rightarrow> float64 \<Rightarrow> int32" where
  "int32_of_float64 pf f =
     (case f of
        Num x \<Rightarrow> if - (2 ^ 31) \<le> trunc_toward_zero x \<and> trunc_toward_zero x < 2 ^ 31
                 then word_of_int (trunc_toward_zero x) else float64ToInt32 pf f
      | _ \<Rightarrow> float64ToInt32 pf f)"

definition int64_of_float64 :: "platform \<Rightarrow> float64 \<Rightarrow> int64" where
  "int64_of_float64 pf f =
     (case f of
        Num x \<Rightarrow> if - (2 ^ 63) \<le> trunc_toward_zero x \<and> trunc_toward_zero x < 2 ^ 63
                 then word_of_int (trunc_toward_zero x) else float64ToInt64 pf f
      | _ \<Rightarrow> float64ToInt64 pf f)"

text \<open>\<open>int32(x)\<close> for an \<open>int\<close> and for an \<open>int64\<close>: the low 32 bits.\<close>

definition int32_of_int :: "int \<Rightarrow> int32" where
  "int32_of_int i = word_of_int i"

definition int32_of_int64 :: "int64 \<Rightarrow> int32" where
  "int32_of_int64 w = word_of_int (sint w)"

section \<open>The objects read from the cluster and from the daemon\<close>

text \<open>
  Modelled from the spec: the API types of \<open>pkg/apis/numaflow/v1alpha1\<close> (Vertex,
  Pipeline, Scale, Edge and their getters) are not among the sources.  A vertex and a
  pipeline are the snapshots the autoscaler reads: each field is the field or the result
  of the getter that the autoscaler uses, with the type the use in \<open>scaling.go\<close> shows.
  Times are nanoseconds.
\<close>

datatype vertex_phase =
  VertexPhasePending | VertexPhaseRunning | VertexPhaseFailed | VertexPhaseSucceeded
  | VertexPhaseOther string

datatype pipeline_phase = PipelinePhaseRunning | PipelinePhaseOther string

record vertex =
  v_Namespace :: string
  v_Name :: string
  v_DeletionTimestampIsZero :: bool
  v_Spec_Name :: string
  v_Spec_PipelineName :: string
  v_Scalable :: bool
  v_IsASource :: bool
  v_OwnedBuffers :: "string list"
  v_GetReplicas :: int
  v_Status_Replicas :: uint32
  v_Status_Phase :: vertex_phase
  v_Status_LastScaledAt :: int
  v_GetMinReplicas :: int32
  v_GetMaxReplicas :: int32
  v_GetReplicasPerScale :: int
  v_GetCooldownSeconds :: int
  v_GetZeroReplicaSleepSeconds :: int
  v_GetTargetProcessingSeconds :: int
  v_GetTargetBufferAvailability :: int

record edge =
  e_From :: string
  e_To :: string

record pipeline =
  pl_Namespace :: string
  pl_Name :: string
  pl_DeletionTimestampIsZero :: bool
  pl_GetDesiredPhase :: pipeline_phase
  pl_GetDaemonServiceURL :: string
  pl_GetDownstreamEdges :: "string \<Rightarrow> edge list"

record vertex_metrics =
  m_ProcessingRates :: "string \<rightharpoonup> float64"
  m_Pendings :: "string \<rightharpoonup> int64"

record buffer_info =
  b_BufferLength :: "int64 option"
  b_BufferUsageLimit :: "float64 option"

definition KeyOfVertex :: "vertex \<Rightarrow> string" where
  "KeyOfVertex vertex = v_Namespace vertex @ ''/'' @ v_Name vertex"

section \<open>The environment of an evaluation\<close>

datatype 'a get_result = Found 'a | NotFound | GetFailed

datatype patch_result = MarshalError | PatchOk | PatchNotFound | PatchError

text \<open>
  What the cluster, the clock and the daemon answer during one evaluation.
  \<open>nowCooldown\<close> and \<open>nowPeek\<close> are the clock at the two calls of \<open>time.Since\<close>;
  \<open>patchResult\<close> is what marshalling and the cluster's \<open>Patch\<close> do with a request;
  \<open>PendingNotAvailable\<close> is the constant of package \<open>isb\<close>, which is not among the
  sources.
\<close>

record env =
  getVertex :: "string \<Rightarrow> string \<Rightarrow> vertex get_result"
  getPipeline :: "string \<Rightarrow> string \<Rightarrow> pipeline get_result"
  nowCooldown :: int
  nowPeek :: int
  NewDaemonServiceClient :: "string \<Rightarrow> bool"
  GetVertexMetrics :: "string \<Rightarrow> string \<Rightarrow> string \<Rightarrow> vertex_metrics list option"
  GetPipelineBuffer :: "string \<Rightarrow> string \<Rightarrow> string \<Rightarrow> buffer_info option"
  patchResult :: "vertex \<Rightarrow> int32 \<Rightarrow> patch_result"
  PendingNotAvailable :: int64
  arch :: platform

record options =
  workers :: nat
  taskInterval :: nat
  clientsCacheSize :: nat
  backPressureThreshold :: float64

datatype error =
  InvalidKey | QueryVertexFailed | QueryPipelineFailed | DaemonClientFailed
  | GetMetricsFailed | GetBufferFailed | InvalidBufferInfo | MarshalFailed | PatchFailed
  | PanicIndexOutOfRange

text \<open>
  The calls an evaluation makes to the daemon (with the URL of the client used) and to
  \<open>patchVertexReplicas\<close>, in order, and the clients it closes.  \<open>isDaemonCall\<close>
  holds of dialling the daemon and of the two fetches.
\<close>

datatype effect =
  DialDaemon string
  | CloseDaemon string
  | FetchVertexMetrics string string string
  | FetchPipelineBuffer string string string
  | PatchVertexReplicas int32


record outcome =
  out_scaler :: scaler
  out_effects :: "effect list"
  out_ret :: "error option"

definition finish :: "scaler \<Rightarrow> effect list \<Rightarrow> error option \<Rightarrow> outcome" where
  "finish s effs r = \<lparr> out_scaler = s, out_effects = effs, out_ret = r \<rparr>"

section \<open>The LRU caches\<close>

text \<open>
  Modelled from the spec: the cache is the library \<open>golang-lru\<close>, a bounded store with
  LRU eviction.  Entries are kept most recently used first; \<open>Add\<close> overwrites, moves
  the entry to the front and evicts from the back what exceeds the capacity; \<open>Get\<close>
  moves a found entry to the front.
\<close>

definition lru_Add :: "nat \<Rightarrow> 'k \<Rightarrow> 'v \<Rightarrow> ('k \<times> 'v) list \<Rightarrow> ('k \<times> 'v) list" where
  "lru_Add cap k v c = take cap ((k, v) # filter (\<lambda>p. fst p \<noteq> k) c)"

definition lru_evicted :: "nat \<Rightarrow> 'k \<Rightarrow> 'v \<Rightarrow> ('k \<times> 'v) list \<Rightarrow> ('k \<times> 'v) list" where
  "lru_evicted cap k v c = drop cap ((k, v) # filter (\<lambda>p. fst p \<noteq> k) c)"

definition lru_Get :: "'k \<Rightarrow> ('k \<times> 'v) list \<Rightarrow> 'v option \<times> ('k \<times> 'v) list" where
  "lru_Get k c =
     (case map_of c k of
        None \<Rightarrow> (None, c)
      | Some v \<Rightarrow> (Some v, (k, v) # filter (\<lambda>p. fst p \<noteq> k) c))"

definition vertexMetricsCacheSize :: nat where
  "vertexMetricsCacheSize = 10000"

section \<open>Back pressure\<close>

text \<open>
  One round of the loop of \<open>hasBackPressure\<close> per downstream edge.  The state of the
  loop is the pair (\<open>directPressure\<close>, \<open>downstreamPressure\<close>); the cache is threaded
  through because \<open>Get\<close> refreshes an entry.  The \<open>break\<close> returns at once.
\<close>

fun hasBackPressure_loop ::
  "platform \<Rightarrow> options \<Rightarrow> pipeline \<Rightarrow> vertex \<Rightarrow> edge list \<Rightarrow> (string \<times> int64) list \<Rightarrow> bool \<times> bool
     \<Rightarrow> (bool \<times> bool) \<times> (string \<times> int64) list" where
  "hasBackPressure_loop pf opts pl vertex [] cache (directPressure, downstreamPressure) =
     ((directPressure, downstreamPressure), cache)"
| "hasBackPressure_loop pf opts pl vertex (e # es) cache (directPressure, downstreamPressure) =
     (let vertexKey = pl_Namespace pl @ ''/'' @ pl_Name pl @ ''-'' @ e_To e;
          (pendingVal, cache1) = lru_Get (vertexKey @ ''/pending'') cache
      in case pendingVal of
           None \<Rightarrow>
             hasBackPressure_loop pf opts pl vertex es cache1 (directPressure, downstreamPressure)
         | Some pending \<Rightarrow>
             (let (bufferLengthVal, cache2) = lru_Get (vertexKey @ ''/length'') cache1
              in case bufferLengthVal of
                   None \<Rightarrow>
                     hasBackPressure_loop pf opts pl vertex es cache2
                       (directPressure, downstreamPressure)
                 | Some length' \<Rightarrow>
                     if fge (fdiv pf (toFloat64 pf (sint pending)) (toFloat64 pf (sint length')))
                            (backPressureThreshold opts)
                     then (if e_From e = v_Spec_Name vertex
                           then ((True, True), cache2)
                           else hasBackPressure_loop pf opts pl vertex es cache2
                                  (directPressure, True))
                     else hasBackPressure_loop pf opts pl vertex es cache2
                            (directPressure, downstreamPressure)))"

definition hasBackPressure ::
  "platform \<Rightarrow> options \<Rightarrow> pipeline \<Rightarrow> vertex \<Rightarrow> (string \<times> int64) list
     \<Rightarrow> (bool \<times> bool) \<times> (string \<times> int64) list" where
  "hasBackPressure pf opts pl vertex cache =
     hasBackPressure_loop pf opts pl vertex (pl_GetDownstreamEdges pl (v_Spec_Name vertex))
       cache (False, False)"

section \<open>The scaling formula\<close>

text \<open>
  The candidate of one partition (the body of the loop of \<open>desiredReplicas\<close> from the
  test \<open>vertex.IsASource()\<close> on).  Indexing a slice beyond its length panics.
\<close>

definition partitionDesired ::
  "platform \<Rightarrow> vertex \<Rightarrow> float64 \<Rightarrow> int64 \<Rightarrow> int64 list \<Rightarrow> int64 list \<Rightarrow> nat \<Rightarrow> error + int32" where
  "partitionDesired pf vertex rate pending partitionBufferLengths
       partitionAvailableBufferLengths i =
     (if v_IsASource vertex then
        Inr (int32_of_float64 pf (math_Round
               (fmul pf (fdiv pf (fdiv pf (toFloat64 pf (sint pending)) rate)
                           (toFloat64 pf (v_GetTargetProcessingSeconds vertex)))
                     (toFloat64 pf (uint (v_Status_Replicas vertex))))))
      else if length partitionBufferLengths \<le> i then Inl PanicIndexOutOfRange
      else if sint (partitionBufferLengths ! i) \<le> sint pending then
        Inr (v_Status_Replicas vertex + int32_of_int (v_GetReplicasPerScale vertex))
      else if length partitionAvailableBufferLengths \<le> i then Inl PanicIndexOutOfRange
      else
        (let singleReplicaContribution =
               fdiv pf (toFloat64 pf (sint (partitionBufferLengths ! i - pending)))
                    (toFloat64 pf (uint (v_Status_Replicas vertex)))
         in Inr (int32_of_float64 pf (math_Round
                   (fdiv pf (toFloat64 pf (sint (partitionAvailableBufferLengths ! i)))
                         singleReplicaContribution)))))"

fun desiredReplicas_loop ::
  "platform \<Rightarrow> vertex \<Rightarrow> float64 list \<Rightarrow> int64 list \<Rightarrow> int64 list \<Rightarrow> int64 list
     \<Rightarrow> nat list \<Rightarrow> int32 \<Rightarrow> error + int32" where
  "desiredReplicas_loop pf vertex partitionProcessingRate partitionPending
       partitionBufferLengths partitionAvailableBufferLengths [] maxDesired = Inr maxDesired"
| "desiredReplicas_loop pf vertex partitionProcessingRate partitionPending
       partitionBufferLengths partitionAvailableBufferLengths (i # is) maxDesired =
     (if length partitionProcessingRate \<le> i then Inl PanicIndexOutOfRange
      else
        (let rate = partitionProcessingRate ! i;
             pending = partitionPending ! i
         in if pending = 0 \<or> feq rate (Num 0) then
              desiredReplicas_loop pf vertex partitionProcessingRate partitionPending
                partitionBufferLengths partitionAvailableBufferLengths is maxDesired
            else
              (case partitionDesired pf vertex rate pending partitionBufferLengths
                      partitionAvailableBufferLengths i of
                 Inl err \<Rightarrow> Inl err
               | Inr desired0 \<Rightarrow>
                   (let desired1 = (if desired0 = 0 then 1 else desired0);
                        desired2 = (if sint (int32_of_int64 pending) < sint desired1
                                    then int32_of_int64 pending else desired1)
                    in desiredReplicas_loop pf vertex partitionProcessingRate partitionPending
                         partitionBufferLengths partitionAvailableBufferLengths is
                         (if sint maxDesired < sint desired2 then desired2 else maxDesired)))))"

definition desiredReplicas ::
  "platform \<Rightarrow> vertex \<Rightarrow> float64 list \<Rightarrow> int64 list \<Rightarrow> int64 list \<Rightarrow> int64 list
     \<Rightarrow> error + int32" where
  "desiredReplicas pf vertex partitionProcessingRate partitionPending
       partitionBufferLengths partitionAvailableBufferLengths =
     desiredReplicas_loop pf vertex partitionProcessingRate partitionPending
       partitionBufferLengths partitionAvailableBufferLengths
       [0 ..< length partitionPending] 1"

text \<open>
  The formula as the specification words it, over unbounded integers and exact division:
  per partition a candidate, none when pending or rate is 0; for a source
  \<open>round((pending / rate) / targetProcessingSeconds * replicas)\<close>; otherwise
  \<open>replicas + step\<close> when \<open>pending \<ge> bufLen\<close>, else
  \<open>round(bufAvail / ((bufLen - pending) / replicas))\<close>; a candidate 0 becomes 1; a
  candidate above pending becomes pending; the result is the maximum, starting from 1.
\<close>

definition spec_candidate ::
  "bool \<Rightarrow> int \<Rightarrow> int \<Rightarrow> int \<Rightarrow> real \<Rightarrow> int \<Rightarrow> int \<Rightarrow> int \<Rightarrow> int option" where
  "spec_candidate isSource targetProcessingSeconds currentReplicas step rate pending bufLen
       bufAvail =
     (if pending = 0 \<or> rate = 0 then None
      else
        (let d = (if isSource then
                    round_half_away
                      ((of_int pending / rate) / of_int targetProcessingSeconds
                         * of_int currentReplicas)
                  else if bufLen \<le> pending then currentReplicas + step
                  else round_half_away
                         (of_int bufAvail / (of_int (bufLen - pending) / of_int currentReplicas)));
             d1 = (if d = 0 then 1 else d)
         in Some (if pending < d1 then pending else d1)))"

fun spec_desiredReplicas ::
  "bool \<Rightarrow> int \<Rightarrow> int \<Rightarrow> int \<Rightarrow> (real \<times> int \<times> int \<times> int) list \<Rightarrow> int \<Rightarrow> int" where
  "spec_desiredReplicas isSource tps currentReplicas step [] maxDesired = maxDesired"
| "spec_desiredReplicas isSource tps currentReplicas step
       ((rate, pending, bufLen, bufAvail) # ps) maxDesired =
     spec_desiredReplicas isSource tps currentReplicas step ps
       (case spec_candidate isSource tps currentReplicas step rate pending bufLen bufAvail of
          None \<Rightarrow> maxDesired
        | Some d \<Rightarrow> max maxDesired d)"

section \<open>Evaluating one vertex\<close>

text \<open>\<open>strings.Split\<close> at one separator character.\<close>

fun strings_Split :: "string \<Rightarrow> char \<Rightarrow> string list" where
  "strings_Split [] sep = [[]]"
| "strings_Split (c # cs) sep =
     (if c = sep then [] # strings_Split cs sep
      else (case strings_Split cs sep of
              [] \<Rightarrow> [[c]]
            | w # ws \<Rightarrow> (c # w) # ws))"

text \<open>\<open>time.Since(t).Seconds()\<close>, with the clock reading \<open>now\<close>.\<close>

definition secondsSince :: "int \<Rightarrow> int \<Rightarrow> float64" where
  "secondsSince now t = Num (of_int (now - t) / 1000000000)"

definition patchVertexReplicas ::
  "env \<Rightarrow> scaler \<Rightarrow> effect list \<Rightarrow> vertex \<Rightarrow> int32 \<Rightarrow> outcome" where
  "patchVertexReplicas env s effs vertex replicas =
     finish s (effs @ [PatchVertexReplicas replicas])
       (case patchResult env vertex replicas of
          MarshalError \<Rightarrow> Some MarshalFailed
        | PatchOk \<Rightarrow> None
        | PatchNotFound \<Rightarrow> None
        | PatchError \<Rightarrow> Some PatchFailed)"

text \<open>
  The gates of \<open>scaleOneVertex\<close> up to the comparison of the observed with the specified
  replicas: either the evaluation is over, or it goes on with the vertex and the pipeline.
\<close>

definition scaleOneVertex_gates ::
  "env \<Rightarrow> scaler \<Rightarrow> string \<Rightarrow> outcome + (vertex \<times> pipeline)" where
  "scaleOneVertex_gates env s key =
     (case strings_Split key CHR ''/'' of
        [namespace, vertexFullName] \<Rightarrow>
          (case getVertex env namespace vertexFullName of
             NotFound \<Rightarrow> Inl (finish (StopWatching key s) [] None)
           | GetFailed \<Rightarrow> Inl (finish s [] (Some QueryVertexFailed))
           | Found vertex \<Rightarrow>
               if \<not> v_DeletionTimestampIsZero vertex then
                 Inl (finish (StopWatching key s) [] None)
               else if \<not> v_Scalable vertex then
                 Inl (finish (StopWatching key s) [] None)
               else if fless (secondsSince (nowCooldown env) (v_Status_LastScaledAt vertex))
                             (float64_of_int (v_GetCooldownSeconds vertex)) then
                 Inl (finish s [] None)
               else if v_Status_Phase vertex \<noteq> VertexPhaseRunning then
                 Inl (finish s [] None)
               else
                 (case getPipeline env namespace (v_Spec_PipelineName vertex) of
                    NotFound \<Rightarrow> Inl (finish (StopWatching key s) [] None)
                  | GetFailed \<Rightarrow> Inl (finish s [] (Some QueryPipelineFailed))
                  | Found pl \<Rightarrow>
                      if \<not> pl_DeletionTimestampIsZero pl then
                        Inl (finish (StopWatching key s) [] None)
                      else if pl_GetDesiredPhase pl \<noteq> PipelinePhaseRunning then
                        Inl (finish s [] None)
                      else if uint (v_Status_Replicas vertex) \<noteq> v_GetReplicas vertex then
                        Inl (finish s [] None)
                      else Inr (vertex, pl)))
      | _ \<Rightarrow> Inl (finish s [] (Some InvalidKey)))"

text \<open>The loop over the metrics of the partitions; \<open>None\<close> when scaling is skipped.\<close>

fun aggregateMetrics ::
  "env \<Rightarrow> vertex_metrics list \<Rightarrow> float64 list \<times> int64 list \<times> float64 \<times> int64
     \<Rightarrow> (float64 list \<times> int64 list \<times> float64 \<times> int64) option" where
  "aggregateMetrics env [] acc = Some acc"
| "aggregateMetrics env (m # ms) (partitionRates, partitionPending, totalRate, totalPending) =
     (case m_ProcessingRates m ''default'' of
        None \<Rightarrow> None
      | Some rate \<Rightarrow>
          if fless rate (Num 0) then None
          else
            (case m_Pendings m ''default'' of
               None \<Rightarrow> None
             | Some pending \<Rightarrow>
                 if sint pending < 0 \<or> pending = PendingNotAvailable env then None
                 else aggregateMetrics env ms
                        (partitionRates @ [rate], partitionPending @ [pending],
                         fadd (arch env) totalRate rate, totalPending + pending)))"

text \<open>
  The loop over the owned buffers: the lengths per partition and their totals, with the
  calls made; an error ends it.
\<close>

fun readBuffers ::
  "env \<Rightarrow> string \<Rightarrow> pipeline \<Rightarrow> vertex \<Rightarrow> string list
     \<Rightarrow> effect list \<times> int64 list \<times> int64 list \<times> int64 \<times> int64
     \<Rightarrow> (effect list \<times> error) + (effect list \<times> int64 list \<times> int64 list \<times> int64 \<times> int64)" where
  "readBuffers env url pl vertex [] acc = Inr acc"
| "readBuffers env url pl vertex (bufferName # bs)
       (effs, partitionBufferLengths, partitionAvailableBufferLengths, totalBufferLength,
        targetAvailableBufferLength) =
     (let effs1 = effs @ [FetchPipelineBuffer url (pl_Name pl) bufferName]
      in case GetPipelineBuffer env url (pl_Name pl) bufferName of
           None \<Rightarrow> Inl (effs1, GetBufferFailed)
         | Some bInfo \<Rightarrow>
             (case (b_BufferLength bInfo, b_BufferUsageLimit bInfo) of
                (Some bufferLength, Some bufferUsageLimit) \<Rightarrow>
                  (let usable = int64_of_float64 (arch env)
                         (fmul (arch env) (toFloat64 (arch env) (sint bufferLength)) bufferUsageLimit);
                       available = int64_of_float64 (arch env)
                         (fdiv (arch env) (fmul (arch env) (toFloat64 (arch env) (sint bufferLength))
                                  (toFloat64 (arch env) (v_GetTargetBufferAvailability vertex)))
                               (Num 100))
                   in readBuffers env url pl vertex bs
                        (effs1, partitionBufferLengths @ [usable],
                         partitionAvailableBufferLengths @ [available],
                         totalBufferLength + usable, targetAvailableBufferLength + available))
              | _ \<Rightarrow> Inl (effs1, InvalidBufferInfo)))"

record gathered =
  g_scaler :: scaler
  g_effects :: "effect list"
  partitionRates :: "float64 list"
  partitionPending :: "int64 list"
  partitionBufferLengths :: "int64 list"
  partitionAvailableBufferLengths :: "int64 list"
  totalRate :: float64
  totalPending :: int64

text \<open>
  The daemon client of the pipeline: the cached one, or a new one, which is added to the
  cache (a client the cache evicts is closed).  \<open>Inl\<close> when dialling fails.
\<close>

definition getDaemonClient ::
  "options \<Rightarrow> env \<Rightarrow> scaler \<Rightarrow> string \<Rightarrow> effect list + (scaler \<times> effect list)" where
  "getDaemonClient opts env s url =
     (case lru_Get url (daemonClientsCache s) of
        (Some dClient, clients1) \<Rightarrow> Inr (s\<lparr> daemonClientsCache := clients1 \<rparr>, [])
      | (None, clients1) \<Rightarrow>
          if NewDaemonServiceClient env url then
            Inr (s\<lparr> daemonClientsCache := lru_Add (clientsCacheSize opts) url url clients1 \<rparr>,
                 DialDaemon url #
                 map (\<lambda>p. CloseDaemon (snd p))
                   (lru_evicted (clientsCacheSize opts) url url clients1))
          else Inl [DialDaemon url])"

text \<open>
  From the daemon client to the second write to the metrics cache: either the evaluation
  is over, or it goes on with the metrics gathered.
\<close>

definition scaleOneVertex_metrics ::
  "options \<Rightarrow> env \<Rightarrow> scaler \<Rightarrow> string \<Rightarrow> vertex \<Rightarrow> pipeline \<Rightarrow> outcome + gathered" where
  "scaleOneVertex_metrics opts env s key vertex pl =
     (let url = pl_GetDaemonServiceURL pl
      in case getDaemonClient opts env s url of
           Inl effs0 \<Rightarrow> Inl (finish s effs0 (Some DaemonClientFailed))
         | Inr (s1, effs1) \<Rightarrow>
           (let effs2 = effs1 @ [FetchVertexMetrics url (pl_Name pl) (v_Spec_Name vertex)]
            in case GetVertexMetrics env url (pl_Name pl) (v_Spec_Name vertex) of
                 None \<Rightarrow> Inl (finish s1 effs2 (Some GetMetricsFailed))
               | Some vMetrics \<Rightarrow>
                   (case aggregateMetrics env vMetrics ([], [], Num 0, 0) of
                      None \<Rightarrow> Inl (finish s1 effs2 None)
                    | Some (rates, pendings, tRate, tPending) \<Rightarrow>
                        (let s2 = s1\<lparr> vertexMetricsCache :=
                                       lru_Add vertexMetricsCacheSize (key @ ''/pending'')
                                         tPending (vertexMetricsCache s1) \<rparr>
                         in if v_IsASource vertex then
                              Inr \<lparr> g_scaler = s2, g_effects = effs2, partitionRates = rates,
                                    partitionPending = pendings, partitionBufferLengths = [],
                                    partitionAvailableBufferLengths = [], totalRate = tRate,
                                    totalPending = tPending \<rparr>
                            else
                              (case readBuffers env url pl vertex (v_OwnedBuffers vertex)
                                      (effs2, [], [], 0, 0) of
                                 Inl (effs3, err) \<Rightarrow> Inl (finish s2 effs3 (Some err))
                               | Inr (effs3, lens, avails, totalBufferLength, _) \<Rightarrow>
                                   Inr \<lparr> g_scaler = s2\<lparr> vertexMetricsCache :=
                                           lru_Add vertexMetricsCacheSize (key @ ''/length'')
                                             totalBufferLength (vertexMetricsCache s2) \<rparr>,
                                         g_effects = effs3, partitionRates = rates,
                                         partitionPending = pendings,
                                         partitionBufferLengths = lens,
                                         partitionAvailableBufferLengths = avails,
                                         totalRate = tRate, totalPending = tPending \<rparr>)))))"

text \<open>
  The desired number before clamping: 0 when both totals are 0, the formula otherwise.
\<close>

definition computeDesired :: "env \<Rightarrow> vertex \<Rightarrow> gathered \<Rightarrow> error + int32" where
  "computeDesired env vertex g =
     (if totalPending g = 0 \<and> feq (totalRate g) (Num 0) then Inr 0
      else desiredReplicas (arch env) vertex (partitionRates g) (partitionPending g)
             (partitionBufferLengths g) (partitionAvailableBufferLengths g))"

definition clampDesired :: "vertex \<Rightarrow> int32 \<Rightarrow> int32" where
  "clampDesired vertex desired =
     (let max = v_GetMaxReplicas vertex;
          min = v_GetMinReplicas vertex;
          desired1 = (if sint max < sint desired then max else desired)
      in if sint desired1 < sint min then min else desired1)"

datatype action = NoPatch | PatchTo int32

text \<open>
  The decision of \<open>scaleOneVertex\<close> once the desired number is clamped: what to patch,
  and the metrics cache, which \<open>hasBackPressure\<close> refreshes where it is asked.
\<close>

definition scaleDecision ::
  "platform \<Rightarrow> options \<Rightarrow> pipeline \<Rightarrow> vertex \<Rightarrow> (string \<times> int64) list \<Rightarrow> int32
     \<Rightarrow> action \<times> (string \<times> int64) list" where
  "scaleDecision pf opts pl vertex cache desired =
     (let current = int32_of_int (v_GetReplicas vertex);
          max = v_GetMaxReplicas vertex;
          min = v_GetMinReplicas vertex
      in if sint max < sint current \<or> sint current < sint min then (PatchTo desired, cache)
         else
           (let maxAllowed = int32_of_int (v_GetReplicasPerScale vertex)
            in if sint desired < sint current then
                 (let diff = current - desired
                  in (PatchTo (current - (if sint maxAllowed < sint diff then maxAllowed
                                          else diff)),
                      cache))
               else if sint current < sint desired then
                 (let ((directPressure, downstreamPressure), cache1) =
                        hasBackPressure pf opts pl vertex cache
                  in if directPressure then
                       (if 1 < sint current then (PatchTo (current - 1), cache1)
                        else (NoPatch, cache1))
                     else if downstreamPressure then (NoPatch, cache1)
                     else
                       (let diff = desired - current
                        in (PatchTo (current + (if sint maxAllowed < sint diff then maxAllowed
                                                else diff)),
                            cache1)))
               else (NoPatch, cache)))"

definition scaleOneVertex_decide ::
  "options \<Rightarrow> env \<Rightarrow> string \<Rightarrow> vertex \<Rightarrow> pipeline \<Rightarrow> gathered \<Rightarrow> outcome" where
  "scaleOneVertex_decide opts env key vertex pl g =
     (case computeDesired env vertex g of
        Inl err \<Rightarrow> finish (g_scaler g) (g_effects g) (Some err)
      | Inr desired0 \<Rightarrow>
          (let desired = clampDesired vertex desired0;
               (act, cache1) = scaleDecision (arch env) opts pl vertex
                                 (vertexMetricsCache (g_scaler g)) desired;
               s1 = (g_scaler g)\<lparr> vertexMetricsCache := cache1 \<rparr>
           in case act of
                NoPatch \<Rightarrow> finish s1 (g_effects g) None
              | PatchTo n \<Rightarrow> patchVertexReplicas env s1 (g_effects g) vertex n))"

definition scaleOneVertex :: "options \<Rightarrow> env \<Rightarrow> scaler \<Rightarrow> string \<Rightarrow> outcome" where
  "scaleOneVertex opts env s key =
     (case scaleOneVertex_gates env s key of
        Inl out \<Rightarrow> out
      | Inr (vertex, pl) \<Rightarrow>
          if v_Status_Replicas vertex = 0 then
            (if fge (secondsSince (nowPeek env) (v_Status_LastScaledAt vertex))
                    (float64_of_int (v_GetZeroReplicaSleepSeconds vertex))
             then patchVertexReplicas env s [] vertex 1
             else finish s [] None)
          else
            (case scaleOneVertex_metrics opts env s key vertex pl of
               Inl out \<Rightarrow> out
             | Inr g \<Rightarrow> scaleOneVertex_decide opts env key vertex pl g))"

section \<open>Notions for stating the properties\<close>

text \<open>The replica values an evaluation passes to \<open>patchVertexReplicas\<close>, in order.\<close>

fun patchesOf :: "effect list \<Rightarrow> int32 list" where
  "patchesOf [] = []"
| "patchesOf (PatchVertexReplicas n # effs) = n # patchesOf effs"
| "patchesOf (_ # effs) = patchesOf effs"

text \<open>
  The vertex, the pipeline and the metrics with which an evaluation reaches the
  computation of the desired replicas; \<open>None\<close> when it ends before.
\<close>

definition reachesDecision ::
  "options \<Rightarrow> env \<Rightarrow> scaler \<Rightarrow> string \<Rightarrow> (vertex \<times> pipeline \<times> gathered) option" where
  "reachesDecision opts env s key =
     (case scaleOneVertex_gates env s key of
        Inl out \<Rightarrow> None
      | Inr (vertex, pl) \<Rightarrow>
          if v_Status_Replicas vertex = 0 then None
          else (case scaleOneVertex_metrics opts env s key vertex pl of
                  Inl out \<Rightarrow> None
                | Inr g \<Rightarrow> Some (vertex, pl, g)))"

text \<open>
  The destination of edge \<open>e\<close> has a cached pending and a cached length whose ratio,
  as the platform computes it, reaches the threshold.
\<close>

definition edgePressure ::
  "platform \<Rightarrow> options \<Rightarrow> pipeline \<Rightarrow> (string \<times> int64) list \<Rightarrow> edge \<Rightarrow> bool" where
  "edgePressure pf opts pl cache e =
     (case (map_of cache (pl_Namespace pl @ ''/'' @ pl_Name pl @ ''-'' @ e_To e @ ''/pending''),
            map_of cache (pl_Namespace pl @ ''/'' @ pl_Name pl @ ''-'' @ e_To e @ ''/length'')) of
        (Some pending, Some length') \<Rightarrow>
           fge (fdiv pf (toFloat64 pf (sint pending)) (toFloat64 pf (sint length')))
               (backPressureThreshold opts)
      | _ \<Rightarrow> False)"

text \<open>
  What \<open>scaleDecision\<close> patches, as a function of the answer of \<open>hasBackPressure\<close>.
\<close>

definition scaleAction :: "vertex \<Rightarrow> int32 \<Rightarrow> bool \<times> bool \<Rightarrow> action" where
  "scaleAction vertex desired pressure =
     (let current = int32_of_int (v_GetReplicas vertex);
          max = v_GetMaxReplicas vertex;
          min = v_GetMinReplicas vertex
      in if sint max < sint current \<or> sint current < sint min then PatchTo desired
         else
           (let maxAllowed = int32_of_int (v_GetReplicasPerScale vertex)
            in if sint desired < sint current then
                 (let diff = current - desired
                  in PatchTo (current - (if sint maxAllowed < sint diff then maxAllowed else diff)))
               else if sint current < sint desired then
                 (let (directPressure, downstreamPressure) = pressure
                  in if directPressure then
                       (if 1 < sint current then PatchTo (current - 1) else NoPatch)
                     else if downstreamPressure then NoPatch
                     else
                       (let diff = desired - current
                        in PatchTo (current + (if sint maxAllowed < sint diff then maxAllowed
                                               else diff))))
               else NoPatch))"

text \<open>Two scalers with the same watch set (they may differ in their caches).\<close>

definition sameWatchSet :: "scaler \<Rightarrow> scaler \<Rightarrow> bool" where
  "sameWatchSet s s' \<longleftrightarrow>
     vertexMap s' = vertexMap s \<and> vertexList s' = vertexList s \<and> nextElement s' = nextElement s"

text \<open>The signed 32-bit value of an integer after wrap-around.\<close>

definition wrap32 :: "int \<Rightarrow> int" where
  "wrap32 k = (k + 2147483648) mod 4294967296 - 2147483648"

section \<open>A pipeline to evaluate on\<close>

text \<open>
  The \<open>float64\<close> values nearest to 0.8, 0.9, 0.95, 10/3, 70/3, 4294967.296 and
  214748.3648, and the one nearest to a twentieth of the \<open>float64\<close> nearest to 70/3.
\<close>

definition double_0_8 :: real where
  "double_0_8 = 3602879701896397 / 4503599627370496"

definition double_0_9 :: real where
  "double_0_9 = 8106479329266893 / 9007199254740992"

definition double_0_95 :: real where
  "double_0_95 = 4278419646001971 / 4503599627370496"

definition double_10_thirds :: real where
  "double_10_thirds = 7505999378950827 / 2251799813685248"

definition double_70_thirds :: real where
  "double_70_thirds = 6567749456581973 / 281474976710656"

definition double_70_thirds_20th :: real where
  "double_70_thirds_20th = 2627099782632789 / 2251799813685248"

definition double_4294967_296 :: real where
  "double_4294967_296 = 1152921504606847 / 268435456"

definition double_214748_3648 :: real where
  "double_214748_3648 = 7378697629483821 / 34359738368"

text \<open>
  The platform of the evaluations below rounds as IEEE 754 does.  Its rounding is
  tabulated for the results that those evaluations compute and that are no \<open>float64\<close>:
  1000 times the usage limit; the ratios 10/3, 950/1000, 140/6 and (the rounded 140/6)/20;
  the quotients 4294967296/1000 and (that quotient, rounded)/20; the integer
  89999999999999999 and the ratio 9/10.  Every other result they compute is a
  \<open>float64\<close> and rounds to itself.  No evaluation below converts a \<open>float64\<close> that
  does not fit the integer type.
\<close>

definition ex_platform :: platform where
  "ex_platform =
     \<lparr> nearest = (\<lambda>x.
         if x = 1000 * double_0_8 then Num 800
         else if x = 10 / 3 then Num double_10_thirds
         else if x = 950 / 1000 then Num double_0_95
         else if x = 140 / 6 then Num double_70_thirds
         else if x = double_70_thirds / 20 then Num double_70_thirds_20th
         else if x = 4294967296 / 1000 then Num double_4294967_296
         else if x = double_4294967_296 / 20 then Num double_214748_3648
         else if x = 89999999999999999 then Num 90000000000000000
         else if x = 9 / 10 then Num double_0_9
         else Num x),
       float64ToInt32 = (\<lambda>f. 0), float64ToInt64 = (\<lambda>f. 0) \<rparr>"

text \<open>
  Pipeline \<open>p\<close> in namespace \<open>ns\<close> with the edge from vertex \<open>a\<close> to vertex \<open>b\<close>.
  Vertex \<open>a\<close> is a UDF with one buffer of length 1000, usage limit 0.8 and a target
  availability of 50 percent; it was last scaled at time 0.  The parameters are its
  replicas (specified and observed alike), its minimum and its step.  The threshold of
  back pressure is 0.9.
\<close>

definition ex_opts :: options where
  "ex_opts = \<lparr> workers = 20, taskInterval = 30000, clientsCacheSize = 100,
               backPressureThreshold = Num double_0_9 \<rparr>"

definition ex_vertex :: "int \<Rightarrow> int32 \<Rightarrow> int \<Rightarrow> vertex" where
  "ex_vertex replicas minReplicas step =
     \<lparr> v_Namespace = ''ns'', v_Name = ''p-a'', v_DeletionTimestampIsZero = True,
       v_Spec_Name = ''a'', v_Spec_PipelineName = ''p'', v_Scalable = True,
       v_IsASource = False, v_OwnedBuffers = [''ns-p-a-0''], v_GetReplicas = replicas,
       v_Status_Replicas = word_of_int replicas, v_Status_Phase = VertexPhaseRunning,
       v_Status_LastScaledAt = 0, v_GetMinReplicas = minReplicas, v_GetMaxReplicas = 10,
       v_GetReplicasPerScale = step, v_GetCooldownSeconds = 90,
       v_GetZeroReplicaSleepSeconds = 120, v_GetTargetProcessingSeconds = 20,
       v_GetTargetBufferAvailability = 50 \<rparr>"

definition ex_pipeline :: pipeline where
  "ex_pipeline =
     \<lparr> pl_Namespace = ''ns'', pl_Name = ''p'', pl_DeletionTimestampIsZero = True,
       pl_GetDesiredPhase = PipelinePhaseRunning, pl_GetDaemonServiceURL = ''p-daemon-svc'',
       pl_GetDownstreamEdges =
         (\<lambda>n. if n = ''a'' then [\<lparr> e_From = ''a'', e_To = ''b'' \<rparr>] else []) \<rparr>"

text \<open>
  The cluster answers \<open>found\<close> for vertex \<open>ns/p-a\<close>; the daemon reports one partition with
  the given rate and pending; the clock reads \<open>now\<close> seconds at both readings.
\<close>

definition ex_env :: "vertex get_result \<Rightarrow> float64 \<Rightarrow> int64 \<Rightarrow> int \<Rightarrow> env" where
  "ex_env found rate pending now =
     \<lparr> getVertex = (\<lambda>namespace name.
                      if namespace = ''ns'' \<and> name = ''p-a'' then found else NotFound),
       getPipeline = (\<lambda>namespace name.
                      if namespace = ''ns'' \<and> name = ''p'' then Found ex_pipeline else NotFound),
       nowCooldown = now * 1000000000,
       nowPeek = now * 1000000000,
       NewDaemonServiceClient = (\<lambda>url. True),
       GetVertexMetrics = (\<lambda>url plName vertexName.
          Some [\<lparr> m_ProcessingRates = [''default'' \<mapsto> rate],
                  m_Pendings = [''default'' \<mapsto> pending] \<rparr>]),
       GetPipelineBuffer = (\<lambda>url plName bufferName.
          Some \<lparr> b_BufferLength = Some 1000, b_BufferUsageLimit = Some (Num double_0_8) \<rparr>),
       patchResult = (\<lambda>vertex replicas. PatchOk),
       PendingNotAvailable = word_of_int (- (2 ^ 63)),
       arch = ex_platform \<rparr>"

text \<open>
  The scaler watches \<open>ns/p-a\<close>; an earlier evaluation of vertex \<open>b\<close> has cached its
  pending 950 and its buffer length 1000.
\<close>

definition ex_scaler :: scaler where
  "ex_scaler =
     (StartWatching ''ns/p-a'' NewScaler)
       \<lparr> vertexMetricsCache := [(''ns/p-b/pending'', 950), (''ns/p-b/length'', 1000)] \<rparr>"

text \<open>
  What that evaluation has gathered when it reaches the computation of the desired
  replicas: the usable length 800 and the target availability 500 of the buffer, and the
  two entries of vertex \<open>a\<close> written to the metrics cache.
\<close>

definition ex_gathered :: "float64 \<Rightarrow> int64 \<Rightarrow> gathered" where
  "ex_gathered rate pending =
     \<lparr> g_scaler = ex_scaler
         \<lparr> vertexMetricsCache :=
             [(''ns/p-a/length'', 800), (''ns/p-a/pending'', pending),
              (''ns/p-b/pending'', 950), (''ns/p-b/length'', 1000)],
           daemonClientsCache := [(''p-daemon-svc'', ''p-daemon-svc'')] \<rparr>,
       g_effects =
         [DialDaemon ''p-daemon-svc'',
          FetchVertexMetrics ''p-daemon-svc'' ''p'' ''a'',
          FetchPipelineBuffer ''p-daemon-svc'' ''p'' ''ns-p-a-0''],
       partitionRates = [rate], partitionPending = [pending],
       partitionBufferLengths = [800], partitionAvailableBufferLengths = [500],
       totalRate = rate, totalPending = pending \<rparr>"

section \<open>Properties of the watch set\<close>

lemma watch_inv_NewScaler: "watch_inv NewScaler"
  by (simp add: watch_inv_def NewScaler_def)

lemma watch_inv_StartWatching:
  assumes "watch_inv s"
  shows "watch_inv (StartWatching key s)"
proof (cases "vertexMap s key")
  case (Some e)
  then show ?thesis using assms by (simp add: StartWatching_def)
next
  case None
  have fresh: "\<forall>p \<in> set (vertexList s). fst p \<noteq> nextElement s"
    using assms by (auto simp: watch_inv_def)
  have nokey: "key \<notin> snd ` set (vertexList s)"
  proof
    assume "key \<in> snd ` set (vertexList s)"
    then obtain e where "(e, key) \<in> set (vertexList s)" by auto
    with assms have "vertexMap s key = Some e" by (simp add: watch_inv_def)
    with None show False by simp
  qed
  show ?thesis
    using assms None fresh nokey
    by (auto simp: watch_inv_def StartWatching_def PushBack_def less_Suc_eq image_iff)
qed

lemma watch_inv_StopWatching:
  assumes "watch_inv s"
  shows "watch_inv (StopWatching key s)"
proof (cases "vertexMap s key")
  case None
  then show ?thesis using assms by (simp add: StopWatching_def)
next
  case (Some e)
  have d1: "distinct (map fst (filter (\<lambda>p. fst p \<noteq> e) (vertexList s)))"
    using assms by (simp add: watch_inv_def distinct_map_filter)
  have d2: "distinct (map snd (filter (\<lambda>p. fst p \<noteq> e) (vertexList s)))"
    using assms by (simp add: watch_inv_def distinct_map_filter)
  have mem: "(e, key) \<in> set (vertexList s)"
    using assms Some by (simp add: watch_inv_def)
  have uniq_id: "\<And>k. (e, k) \<in> set (vertexList s) \<Longrightarrow> k = key"
    using assms mem by (auto simp: watch_inv_def dest: eq_key_imp_eq_value)
  have uniq_key: "e' = e" if "(e', key) \<in> set (vertexList s)" for e'
  proof -
    from that assms have "vertexMap s key = Some e'" by (simp add: watch_inv_def)
    with Some show ?thesis by simp
  qed
  have inv_map: "\<And>k e'. vertexMap s k = Some e' \<longleftrightarrow> (e', k) \<in> set (vertexList s)"
    using assms by (simp add: watch_inv_def)
  have m: "((vertexMap s)(key := None)) k = Some e' \<longleftrightarrow>
             (e', k) \<in> set (filter (\<lambda>p. fst p \<noteq> e) (vertexList s))" for k e'
  proof (cases "k = key")
    case True
    then show ?thesis using uniq_key [of e'] by auto
  next
    case False
    then show ?thesis using uniq_id [of k] inv_map [of k e'] by auto
  qed
  have b: "\<forall>p \<in> set (filter (\<lambda>p. fst p \<noteq> e) (vertexList s)). fst p < nextElement s"
    using assms by (simp add: watch_inv_def)
  show ?thesis
    using Some d1 d2 m b by (simp add: watch_inv_def StopWatching_def Remove_def)
qed

lemma watch_inv_run_watch_ops:
  "watch_inv s \<Longrightarrow> watch_inv (run_watch_ops ops s)"
proof (induction ops arbitrary: s)
  case Nil
  then show ?case by simp
next
  case (Cons x xs)
  have "watch_inv (apply_watch_op x s)"
    using Cons.prems by (cases x) (simp_all add: watch_inv_StartWatching watch_inv_StopWatching)
  then show ?case using Cons.IH by simp
qed

lemma watch_inv_same_keys:
  assumes "watch_inv s"
  shows "dom (vertexMap s) = set (watchedKeys s)"
proof -
  have "\<And>k. k \<in> dom (vertexMap s) \<longleftrightarrow> k \<in> snd ` set (vertexList s)"
    using assms by (force simp: watch_inv_def dom_def image_iff)
  then show ?thesis by (auto simp: watchedKeys_def)
qed

lemma StartWatching_twice: "StartWatching key (StartWatching key s) = StartWatching key s"
  by (cases "vertexMap s key") (simp_all add: StartWatching_def PushBack_def)

lemma StopWatching_twice: "StopWatching key (StopWatching key s) = StopWatching key s"
  by (cases "vertexMap s key") (simp_all add: StopWatching_def Remove_def)

lemma watchedKeys_StartWatching:
  "watchedKeys (StartWatching key s) =
     (if Contains s key then watchedKeys s else watchedKeys s @ [key])"
  by (cases "vertexMap s key")
     (simp_all add: StartWatching_def PushBack_def watchedKeys_def Contains_def)

section \<open>Properties of the gates\<close>

lemma length_filter_remove_one:
  "distinct (map fst xs) \<Longrightarrow> (e, k) \<in> set xs \<Longrightarrow>
     Suc (length (filter (\<lambda>p. fst p \<noteq> e) xs)) = length xs"
proof (induction xs)
  case Nil
  then show ?case by simp
next
  case (Cons x xs)
  show ?case
  proof (cases "fst x = e")
    case True
    then have "\<forall>p \<in> set xs. fst p \<noteq> e"
      using Cons.prems(1) by (auto simp: image_iff)
    then have "filter (\<lambda>p. fst p \<noteq> e) xs = xs"
      by (simp add: filter_id_conv)
    with True show ?thesis by simp
  next
    case False
    then have "(e, k) \<in> set xs" using Cons.prems(2) by auto
    with Cons.IH Cons.prems(1) False show ?thesis by simp
  qed
qed

lemma Length_StopWatching:
  assumes "watch_inv s" and "Contains s key"
  shows "Suc (Length (StopWatching key s)) = Length s"
proof -
  from assms(2) obtain e where e: "vertexMap s key = Some e"
    by (auto simp: Contains_def)
  with assms(1) have "(e, key) \<in> set (vertexList s)" and "distinct (map fst (vertexList s))"
    by (simp_all add: watch_inv_def)
  then show ?thesis
    using e by (simp add: Length_def StopWatching_def Remove_def length_filter_remove_one)
qed

lemma Contains_StopWatching: "\<not> Contains (StopWatching key s) key"
  by (cases "vertexMap s key") (simp_all add: Contains_def StopWatching_def Remove_def)




section \<open>Properties of the back-pressure check\<close>

lemma map_of_filter_other:
  "k' \<noteq> k \<Longrightarrow> map_of (filter (\<lambda>p. fst p \<noteq> k) c) k' = map_of c k'"
  by (induction c) auto

lemma map_of_lru_Get: "map_of (snd (lru_Get k c)) = map_of c"
proof (cases "map_of c k")
  case None
  then show ?thesis by (simp add: lru_Get_def)
next
  case (Some v)
  have "map_of ((k, v) # filter (\<lambda>p. fst p \<noteq> k) c) k' = map_of c k'" for k'
    using Some by (cases "k' = k") (simp_all add: map_of_filter_other)
  then show ?thesis using Some by (auto simp: lru_Get_def)
qed

lemma fst_lru_Get: "fst (lru_Get k c) = map_of c k"
  by (cases "map_of c k") (simp_all add: lru_Get_def)

lemma hasBackPressure_loop_direct_downstream:
  "(directPressure \<longrightarrow> downstreamPressure) \<Longrightarrow>
     fst (fst (hasBackPressure_loop pf opts pl vertex es cache (directPressure, downstreamPressure)))
       \<longrightarrow> snd (fst (hasBackPressure_loop pf opts pl vertex es cache
                        (directPressure, downstreamPressure)))"
proof (induction es arbitrary: cache directPressure downstreamPressure)
  case Nil
  then show ?case by simp
next
  case (Cons e es)
  show ?case
    using Cons.prems Cons.IH
    by (simp add: Let_def split: prod.split option.split)
qed


lemma hasBackPressure_loop_direct:
  assumes "e \<in> set es" and "e_From e = v_Spec_Name vertex" and "edgePressure pf opts pl cache e"
  shows "fst (fst (hasBackPressure_loop pf opts pl vertex es cache acc))"
  using assms
proof (induction es arbitrary: cache acc)
  case Nil
  then show ?case by simp
next
  case (Cons x xs)
  obtain d ds where acc: "acc = (d, ds)" by (cases acc)
  let ?k = "pl_Namespace pl @ ''/'' @ pl_Name pl @ ''-'' @ e_To x"
  obtain pv c1 where g1: "lru_Get (?k @ ''/pending'') cache = (pv, c1)" by force
  obtain lv c2 where g2: "lru_Get (?k @ ''/length'') c1 = (lv, c2)" by force
  have pv: "pv = map_of cache (?k @ ''/pending'')" using g1 fst_lru_Get [of "?k @ ''/pending''" cache] by simp
  have m1: "map_of c1 = map_of cache" using g1 map_of_lru_Get [of "?k @ ''/pending''" cache] by simp
  have lv: "lv = map_of cache (?k @ ''/length'')" using g2 fst_lru_Get [of "?k @ ''/length''" c1] m1 by simp
  have m2: "map_of c2 = map_of cache" using g2 map_of_lru_Get [of "?k @ ''/length''" c1] m1 by simp
  have p1: "edgePressure pf opts pl c1 e" using Cons.prems(3) m1 by (simp add: edgePressure_def)
  have p2: "edgePressure pf opts pl c2 e" using Cons.prems(3) m2 by (simp add: edgePressure_def)
  show ?case
  proof (cases "x = e")
    case True
    then show ?thesis
      using Cons.prems(2,3) g1 g2 pv lv acc
      by (auto simp: edgePressure_def Let_def split: option.splits)
  next
    case False
    then have mem: "e \<in> set xs" using Cons.prems(1) by simp
    have r1: "\<And>a. fst (fst (hasBackPressure_loop pf opts pl vertex xs c1 a))"
      using Cons.IH [OF mem Cons.prems(2) p1] .
    have r2: "\<And>a. fst (fst (hasBackPressure_loop pf opts pl vertex xs c2 a))"
      using Cons.IH [OF mem Cons.prems(2) p2] .
    show ?thesis
      using g1 g2 acc r1 r2
      by (simp add: Let_def split: option.split)
  qed
qed

section \<open>Signed 32-bit arithmetic\<close>

lemma stb31: "signed_take_bit 31 (k::int) = wrap32 k"
  by (simp add: signed_take_bit_eq_take_bit_shift take_bit_eq_mod wrap32_def)

lemma sint32_add: "sint (a + b :: 32 word) = wrap32 (sint a + sint b)"
  by (simp add: sint_word_add stb31)

lemma sint32_diff: "sint (a - b :: 32 word) = wrap32 (sint a - sint b)"
  by (simp add: sint_word_diff stb31)

lemma sint32_of_int: "sint (int32_of_int k) = wrap32 k"
  by (simp add: int32_of_int_def int_word_sint wrap32_def)

lemma sint32_range: "- 2147483648 \<le> sint (a :: 32 word) \<and> sint a < 2147483648"
  using sint_ge [of a] sint_lt [of a] by simp

lemma wrap32_id: "- 2147483648 \<le> k \<Longrightarrow> k < 2147483648 \<Longrightarrow> wrap32 k = k"
  by (simp add: wrap32_def)

lemma wrap32_high:
  assumes "2147483648 \<le> k" "k < 6442450944"
  shows "wrap32 k = k - 4294967296"
proof -
  have e: "k + 2147483648 = (k - 2147483648) + 4294967296"
    by arith
  have "(k + 2147483648) mod 4294967296 = (k - 2147483648) mod 4294967296"
    by (subst e) (simp only: mod_add_self2)
  also have "\<dots> = k - 2147483648"
    using assms by simp
  finally show ?thesis by (simp add: wrap32_def)
qed

lemma wrap32_low:
  assumes "- 6442450944 \<le> k" "k < - 2147483648"
  shows "wrap32 k = k + 4294967296"
proof -
  have "(k + 2147483648) mod 4294967296 = ((k + 2147483648) + 4294967296) mod 4294967296"
    by (simp only: mod_add_self2)
  also have "\<dots> = k + 6442450944"
    using assms by simp
  finally show ?thesis by (simp add: wrap32_def)
qed

lemma wrap32_decompose:
  assumes "1 \<le> rps"
  obtains q where "0 \<le> q" "rps = wrap32 rps + 4294967296 * q"
    "- 2147483648 \<le> wrap32 rps" "wrap32 rps < 2147483648"
proof -
  let ?q = "(rps + 2147483648) div 4294967296"
  let ?r = "(rps + 2147483648) mod 4294967296"
  have q: "0 \<le> ?q" using assms by (simp add: pos_imp_zdiv_nonneg_iff)
  have "rps + 2147483648 = 4294967296 * ?q + ?r"
    by (simp only: mult_div_mod_eq)
  then have e: "rps = wrap32 rps + 4294967296 * ?q"
    unfolding wrap32_def by linarith
  have "0 \<le> ?r" "?r < 4294967296"
    by simp_all
  then have b: "- 2147483648 \<le> wrap32 rps" "wrap32 rps < 2147483648"
    unfolding wrap32_def by linarith+
  from q e b show ?thesis by (rule that)
qed

lemma wrap32_step_bounds:
  assumes "1 \<le> rps"
  shows "\<bar>wrap32 rps\<bar> \<le> rps" and "wrap32 rps < 0 \<Longrightarrow> wrap32 rps + 4294967296 \<le> rps"
proof -
  from assms obtain q where q: "0 \<le> q" "rps = wrap32 rps + 4294967296 * q"
    "- 2147483648 \<le> wrap32 rps" "wrap32 rps < 2147483648"
    by (rule wrap32_decompose)
  have q1: "1 \<le> q" if "wrap32 rps < 0"
  proof (rule ccontr)
    assume "\<not> 1 \<le> q"
    with q(1) have "q = 0" by linarith
    with q(2) that assms show False by simp
  qed
  show "\<bar>wrap32 rps\<bar> \<le> rps"
  proof (cases "wrap32 rps < 0")
    case True
    with q1 q show ?thesis by linarith
  next
    case False
    with q show ?thesis by linarith
  qed
  show "wrap32 rps + 4294967296 \<le> rps" if "wrap32 rps < 0"
    using q1 [OF that] q by linarith
qed

lemma wrap_le:
  assumes "1 \<le> rps" "D \<le> wrap32 rps"
  shows "D \<le> rps"
  using wrap32_step_bounds(1) [OF assms(1)] assms(2) by linarith

lemma wrap_step_down:
  assumes "0 \<le> c" "c < 2147483648" "1 \<le> rps" "wrap32 rps < D" "D \<le> c"
  shows "\<bar>wrap32 (c - wrap32 rps) - c\<bar> \<le> rps"
proof -
  have r: "- 2147483648 \<le> wrap32 rps" "wrap32 rps < 2147483648"
    using wrap32_decompose [OF assms(3)] by blast+
  note b = wrap32_step_bounds [OF assms(3)]
  show ?thesis
  proof (cases "c - wrap32 rps < 2147483648")
    case True
    then have "wrap32 (c - wrap32 rps) = c - wrap32 rps"
      using assms r by (intro wrap32_id) linarith+
    then show ?thesis using b(1) by linarith
  next
    case False
    then have "wrap32 (c - wrap32 rps) = c - wrap32 rps - 4294967296"
      using assms r by (intro wrap32_high) linarith+
    moreover have "wrap32 rps < 0" using False assms by linarith
    ultimately show ?thesis using b(2) r by linarith
  qed
qed

lemma wrap_step_up:
  assumes "0 \<le> c" "1 \<le> rps" "wrap32 rps < D" "c + D < 2147483648"
  shows "\<bar>wrap32 (c + wrap32 rps) - c\<bar> \<le> rps"
proof -
  have r: "- 2147483648 \<le> wrap32 rps" "wrap32 rps < 2147483648"
    using wrap32_decompose [OF assms(2)] by blast+
  have "wrap32 (c + wrap32 rps) = c + wrap32 rps"
    using assms r by (intro wrap32_id) linarith+
  then show ?thesis using wrap32_step_bounds(1) [OF assms(2)] by linarith
qed

section \<open>Effects of the stages\<close>

lemmas model_defs = scaleOneVertex_def scaleOneVertex_gates_def scaleOneVertex_metrics_def scaleOneVertex_decide_def
  getDaemonClient_def
  computeDesired_def clampDesired_def scaleDecision_def scaleAction_def hasBackPressure_def
  desiredReplicas_def partitionDesired_def patchVertexReplicas_def finish_def secondsSince_def
  float64_of_int_def fge_def round_half_away_def trunc_toward_zero_def int32_of_float64_def int64_of_float64_def
  int32_of_int_def int32_of_int64_def lru_Add_def lru_Get_def lru_evicted_def vertexMetricsCacheSize_def
  StartWatching_def StopWatching_def PushBack_def Remove_def NewScaler_def
  toFloat64_def double_0_8_def double_0_9_def double_0_95_def double_10_thirds_def
  double_70_thirds_def double_70_thirds_20th_def double_4294967_296_def
  double_214748_3648_def
  ex_opts_def ex_vertex_def ex_pipeline_def ex_platform_def ex_env_def ex_scaler_def
  ex_gathered_def Let_def

lemma patchesOf_append: "patchesOf (xs @ ys) = patchesOf xs @ patchesOf ys"
  by (induction xs rule: patchesOf.induct) simp_all

lemma gates_Inl_no_effects:
  "scaleOneVertex_gates env s key = Inl out \<Longrightarrow> out_effects out = []"
  by (auto simp: scaleOneVertex_gates_def finish_def
           split: list.splits get_result.splits if_splits)

lemma gates_Inr_vertex:
  assumes "scaleOneVertex_gates env s key = Inr (vertex, pl)"
  shows "\<exists>namespace vertexFullName.
           strings_Split key CHR ''/'' = [namespace, vertexFullName]
         \<and> getVertex env namespace vertexFullName = Found vertex"
    and "uint (v_Status_Replicas vertex) = v_GetReplicas vertex"
  using assms
  by (auto simp: scaleOneVertex_gates_def split: list.splits get_result.splits if_splits)

lemma readBuffers_no_patch:
  "patchesOf (fst acc) = [] \<Longrightarrow>
     (case readBuffers env url pl vertex bs acc of
        Inl (effs', err) \<Rightarrow> patchesOf effs' = []
      | Inr (effs', rest) \<Rightarrow> patchesOf effs' = [])"
proof (induction bs arbitrary: acc)
  case Nil
  then show ?case by (cases acc) simp
next
  case (Cons b bs)
  obtain effs l a t ta where acc: "acc = (effs, l, a, t, ta)" by (cases acc) auto
  show ?case
    using Cons.prems Cons.IH unfolding acc
    by (simp add: Let_def patchesOf_append split: option.split)
qed

lemma getDaemonClient_no_patch:
  "(case getDaemonClient opts env s url of
      Inl effs \<Rightarrow> patchesOf effs = []
    | Inr (s1, effs) \<Rightarrow> patchesOf effs = [])"
proof -
  have cl: "patchesOf (map (\<lambda>p. CloseDaemon (snd p)) xs) = []" for xs :: "(string \<times> string) list"
    by (induction xs) simp_all
  show ?thesis
    by (simp add: getDaemonClient_def cl split: prod.split option.split)
qed

lemma metrics_no_patch:
  "(case scaleOneVertex_metrics opts env s key vertex pl of
      Inl out \<Rightarrow> patchesOf (out_effects out) = []
    | Inr g \<Rightarrow> patchesOf (g_effects g) = [])"
proof (cases "getDaemonClient opts env s (pl_GetDaemonServiceURL pl)")
  case (Inl effs0)
  then show ?thesis
    using getDaemonClient_no_patch [of opts env s "pl_GetDaemonServiceURL pl"]
    by (simp add: scaleOneVertex_metrics_def finish_def)
next
  case (Inr r)
  obtain s1 effs1 where r: "r = (s1, effs1)" by (cases r)
  let ?effs2 = "effs1 @ [FetchVertexMetrics (pl_GetDaemonServiceURL pl) (pl_Name pl)
                           (v_Spec_Name vertex)]"
  have e2: "patchesOf ?effs2 = []"
    using getDaemonClient_no_patch [of opts env s "pl_GetDaemonServiceURL pl"] Inr r
    by (simp add: patchesOf_append)
  have rb: "(case readBuffers env (pl_GetDaemonServiceURL pl) pl vertex (v_OwnedBuffers vertex)
                    (?effs2, [], [], 0, 0) of
               Inl (effs', err) \<Rightarrow> patchesOf effs' = []
             | Inr (effs', rest) \<Rightarrow> patchesOf effs' = [])"
    using readBuffers_no_patch [of "(?effs2, [], [], 0, 0)"] e2 by simp
  show ?thesis
    using Inr r e2 rb
    by (auto simp: scaleOneVertex_metrics_def finish_def Let_def
             split: option.split prod.split sum.split)
qed

section \<open>Where the rounding decides\<close>

text \<open>
  The formula and the back-pressure test follow the rounding of the platform.  A source
  at 3 replicas with rate 6 and 140 pending messages gets 3 desired replicas, since
  ((140/6)/20)*3 is 3.4999999999999996 in \<open>float64\<close> arithmetic, where exact arithmetic
  gives 3.5 and the formula of the specification 4.  A neighbour with
  89999999999999999 pending messages in a buffer of 100000000000000000 exerts back
  pressure at the threshold 0.9, since the pending count rounds to 90000000000000000.
\<close>

lemma desiredReplicas_follows_rounding:
  "desiredReplicas ex_platform ((ex_vertex 3 1 2)\<lparr> v_IsASource := True \<rparr>)
       [Num 6] [140] [] [] = Inr 3
   \<and> spec_desiredReplicas True 20 3 2 [(6, 140, 0, 0)] 1 = 4"
  by (simp add: model_defs spec_candidate_def)

lemma hasBackPressure_follows_rounding:
  "fst (hasBackPressure ex_platform ex_opts ex_pipeline (ex_vertex 3 1 2)
          [(''ns/p-b/pending'', 89999999999999999),
           (''ns/p-b/length'', 100000000000000000)]) = (True, True)"
  by (simp add: model_defs)

section \<open>The desired replicas and where a patch comes from\<close>

lemma desiredReplicas_loop_ge:
  "desiredReplicas_loop pf vertex rs ps bl av is m = Inr d \<Longrightarrow> sint m \<le> sint d"
proof (induction "is" arbitrary: m)
  case Nil
  then show ?case by simp
next
  case (Cons i "is")
  show ?case
  proof (cases "length rs \<le> i")
    case True
    with Cons.prems show ?thesis by simp
  next
    case False
    show ?thesis
    proof (cases "ps ! i = 0 \<or> feq (rs ! i) (Num 0)")
      case True
      with False Cons.prems have "desiredReplicas_loop pf vertex rs ps bl av is m = Inr d"
        by (simp add: Let_def)
      then show ?thesis by (rule Cons.IH)
    next
      case skip: False
      show ?thesis
      proof (cases "partitionDesired pf vertex (rs ! i) (ps ! i) bl av i")
        case (Inl err)
        with False skip Cons.prems show ?thesis by (simp add: Let_def)
      next
        case (Inr d0)
        let ?d1 = "if d0 = 0 then 1 else d0"
        let ?d2 = "if sint (int32_of_int64 (ps ! i)) < sint ?d1 then int32_of_int64 (ps ! i) else ?d1"
        let ?m' = "if sint m < sint ?d2 then ?d2 else m"
        from False skip Inr Cons.prems
        have "desiredReplicas_loop pf vertex rs ps bl av is ?m' = Inr d"
          by (simp add: Let_def)
        then have "sint ?m' \<le> sint d" by (rule Cons.IH)
        moreover have "sint m \<le> sint ?m'" by simp
        ultimately show ?thesis by linarith
      qed
    qed
  qed
qed

lemma computeDesired_nonneg:
  assumes "computeDesired env vertex g = Inr d"
  shows "0 \<le> sint d"
proof (cases "totalPending g = 0 \<and> feq (totalRate g) (Num 0)")
  case True
  with assms show ?thesis by (simp add: computeDesired_def)
next
  case False
  with assms have "desiredReplicas_loop (arch env) vertex (partitionRates g) (partitionPending g)
      (partitionBufferLengths g) (partitionAvailableBufferLengths g)
      [0 ..< length (partitionPending g)] 1 = Inr d"
    by (simp add: computeDesired_def desiredReplicas_def)
  then have "sint (1 :: int32) \<le> sint d" by (rule desiredReplicas_loop_ge)
  then show ?thesis by simp
qed

lemma clampDesired_range:
  assumes "sint (v_GetMinReplicas vertex) \<le> sint (v_GetMaxReplicas vertex)"
  shows "sint (v_GetMinReplicas vertex) \<le> sint (clampDesired vertex d)"
    and "sint (clampDesired vertex d) \<le> sint (v_GetMaxReplicas vertex)"
  using assms by (auto simp: clampDesired_def Let_def)

lemma clampDesired_nonneg:
  assumes "0 \<le> sint d" and "0 \<le> sint (v_GetMaxReplicas vertex)"
  shows "0 \<le> sint (clampDesired vertex d)"
  using assms by (auto simp: clampDesired_def Let_def)

lemma scaleDecision_action:
  "fst (scaleDecision pf opts pl vertex cache desired) =
     scaleAction vertex desired (fst (hasBackPressure pf opts pl vertex cache))"
  by (simp add: scaleDecision_def scaleAction_def Let_def split: prod.split)

lemma decide_patches:
  "patchesOf (out_effects (scaleOneVertex_decide opts env key vertex pl g)) =
     patchesOf (g_effects g) @
     (case computeDesired env vertex g of
        Inl err \<Rightarrow> []
      | Inr desired0 \<Rightarrow>
          (case scaleAction vertex (clampDesired vertex desired0)
                  (fst (hasBackPressure (arch env) opts pl vertex (vertexMetricsCache (g_scaler g)))) of
             NoPatch \<Rightarrow> []
           | PatchTo n \<Rightarrow> [n]))"
proof (cases "computeDesired env vertex g")
  case (Inl err)
  then show ?thesis by (simp add: scaleOneVertex_decide_def finish_def)
next
  case (Inr desired0)
  obtain act cache1 where sd:
    "scaleDecision (arch env) opts pl vertex (vertexMetricsCache (g_scaler g))
       (clampDesired vertex desired0) = (act, cache1)"
    by force
  have act: "scaleAction vertex (clampDesired vertex desired0)
               (fst (hasBackPressure (arch env) opts pl vertex (vertexMetricsCache (g_scaler g)))) = act"
    using scaleDecision_action [of "arch env" opts pl vertex "vertexMetricsCache (g_scaler g)"
                                  "clampDesired vertex desired0"] sd
    by simp
  show ?thesis
    using Inr sd
    by (cases act)
       (simp_all add: act scaleOneVertex_decide_def finish_def patchVertexReplicas_def
          Let_def patchesOf_append)
qed

lemma reachesDecision_iff:
  "reachesDecision opts env s key = Some (vertex, pl, g) \<longleftrightarrow>
     scaleOneVertex_gates env s key = Inr (vertex, pl) \<and> v_Status_Replicas vertex \<noteq> 0
     \<and> scaleOneVertex_metrics opts env s key vertex pl = Inr g"
  by (auto simp: reachesDecision_def split: sum.splits if_splits)

lemma scaleOneVertex_reaches:
  assumes "reachesDecision opts env s key = Some (vertex, pl, g)"
  shows "scaleOneVertex opts env s key = scaleOneVertex_decide opts env key vertex pl g"
  using assms by (simp add: reachesDecision_iff scaleOneVertex_def)

lemma reaches_patches:
  assumes "reachesDecision opts env s key = Some (vertex, pl, g)"
  shows "patchesOf (out_effects (scaleOneVertex opts env s key)) =
     (case computeDesired env vertex g of
        Inl err \<Rightarrow> []
      | Inr desired0 \<Rightarrow>
          (case scaleAction vertex (clampDesired vertex desired0)
                  (fst (hasBackPressure (arch env) opts pl vertex (vertexMetricsCache (g_scaler g)))) of
             NoPatch \<Rightarrow> []
           | PatchTo n \<Rightarrow> [n]))"
proof -
  have "scaleOneVertex_metrics opts env s key vertex pl = Inr g"
    using assms by (simp add: reachesDecision_iff)
  then have "patchesOf (g_effects g) = []"
    using metrics_no_patch [of opts env s key vertex pl] by simp
  then show ?thesis
    by (simp add: scaleOneVertex_reaches [OF assms] decide_patches)
qed

text \<open>
  Where a patch comes from: the zero-replica peek, or the decision on the gathered
  metrics.
\<close>

lemma patch_origin:
  assumes "p \<in> set (patchesOf (out_effects (scaleOneVertex opts env s key)))"
  obtains vertex pl where "scaleOneVertex_gates env s key = Inr (vertex, pl)"
      and "v_Status_Replicas vertex = 0" and "p = 1"
  | vertex pl g desired0 where "reachesDecision opts env s key = Some (vertex, pl, g)"
      and "computeDesired env vertex g = Inr desired0"
      and "scaleAction vertex (clampDesired vertex desired0)
             (fst (hasBackPressure (arch env) opts pl vertex (vertexMetricsCache (g_scaler g)))) = PatchTo p"
proof (cases "scaleOneVertex_gates env s key")
  case (Inl out)
  then have "out_effects (scaleOneVertex opts env s key) = []"
    using gates_Inl_no_effects [OF Inl] by (simp add: scaleOneVertex_def)
  with assms show ?thesis by simp
next
  case (Inr r)
  obtain vertex pl where r: "r = (vertex, pl)" by (cases r)
  show ?thesis
  proof (cases "v_Status_Replicas vertex = 0")
    case True
    then have "p = 1"
      using assms Inr r
      by (auto simp: scaleOneVertex_def patchVertexReplicas_def finish_def split: if_splits)
    with Inr r True show ?thesis by (auto intro: that(1))
  next
    case nz: False
    show ?thesis
    proof (cases "scaleOneVertex_metrics opts env s key vertex pl")
      case (Inl out)
      then have "patchesOf (out_effects out) = []"
        using metrics_no_patch [of opts env s key vertex pl] by simp
      moreover have "scaleOneVertex opts env s key = out"
        using Inr r nz Inl by (simp add: scaleOneVertex_def)
      ultimately show ?thesis using assms by simp
    next
      case g: (Inr g)
      have reach: "reachesDecision opts env s key = Some (vertex, pl, g)"
        using Inr r nz g by (simp add: reachesDecision_iff)
      show ?thesis
      proof (cases "computeDesired env vertex g")
        case (Inl err)
        with assms reaches_patches [OF reach] show ?thesis by simp
      next
        case d: (Inr desired0)
        with assms reaches_patches [OF reach]
        have "scaleAction vertex (clampDesired vertex desired0)
             (fst (hasBackPressure (arch env) opts pl vertex (vertexMetricsCache (g_scaler g)))) = PatchTo p"
          by (auto split: action.splits)
        with reach d show ?thesis by (rule that(2))
      qed
    qed
  qed
qed

section \<open>The decision inside the bounds\<close>

lemma sint_current:
  assumes "0 \<le> r" and "r \<le> sint (mx :: int32)"
  shows "sint (int32_of_int r) = r"
proof -
  have "r < 2147483648" using assms(2) sint32_range [of mx] by linarith
  with assms(1) show ?thesis by (simp add: sint32_of_int wrap32_id)
qed

text \<open>The decision when the specified replicas lie inside the bounds.\<close>

lemma scaleAction_in_range:
  assumes "0 \<le> v_GetReplicas vertex"
    and "sint (v_GetMinReplicas vertex) \<le> v_GetReplicas vertex"
    and "v_GetReplicas vertex \<le> sint (v_GetMaxReplicas vertex)"
  shows "scaleAction vertex desired pressure =
     (let current = int32_of_int (v_GetReplicas vertex);
          maxAllowed = int32_of_int (v_GetReplicasPerScale vertex)
      in if sint desired < v_GetReplicas vertex then
           PatchTo (current - (if sint maxAllowed < sint (current - desired) then maxAllowed
                               else current - desired))
         else if v_GetReplicas vertex < sint desired then
           (if fst pressure then
              (if 1 < v_GetReplicas vertex then PatchTo (current - 1) else NoPatch)
            else if snd pressure then NoPatch
            else PatchTo (current + (if sint maxAllowed < sint (desired - current) then maxAllowed
                                     else desired - current)))
         else NoPatch)"
proof -
  have c: "sint (int32_of_int (v_GetReplicas vertex)) = v_GetReplicas vertex"
    using assms(1,3) by (rule sint_current)
  show ?thesis
    using assms(2,3)
    by (simp add: scaleAction_def Let_def c split: prod.split)
qed

lemma scaleAction_step:
  assumes nn: "0 \<le> v_GetReplicas vertex"
    and lo: "sint (v_GetMinReplicas vertex) \<le> v_GetReplicas vertex"
    and hi: "v_GetReplicas vertex \<le> sint (v_GetMaxReplicas vertex)"
    and d0: "0 \<le> sint desired0"
    and step: "1 \<le> v_GetReplicasPerScale vertex"
    and act: "scaleAction vertex (clampDesired vertex desired0) pressure = PatchTo p"
  shows "\<bar>sint p - v_GetReplicas vertex\<bar> \<le> v_GetReplicasPerScale vertex"
proof -
  let ?r = "v_GetReplicas vertex" and ?rps = "v_GetReplicasPerScale vertex"
  let ?c = "int32_of_int ?r" and ?m = "int32_of_int ?rps"
  let ?d = "clampDesired vertex desired0"
  have c: "sint ?c = ?r" using nn hi by (rule sint_current)
  have r31: "?r < 2147483648" using hi sint32_range [of "v_GetMaxReplicas vertex"] by linarith
  have m: "sint ?m = wrap32 ?rps" by (rule sint32_of_int)
  have dn: "0 \<le> sint ?d"
    using d0 nn hi by (intro clampDesired_nonneg) linarith+
  have d31: "sint ?d < 2147483648" using sint32_range [of ?d] by simp
  have form: "PatchTo p =
     (if sint ?d < ?r then
           PatchTo (?c - (if sint ?m < sint (?c - ?d) then ?m else ?c - ?d))
         else if ?r < sint ?d then
           (if fst pressure then
              (if 1 < ?r then PatchTo (?c - 1) else NoPatch)
            else if snd pressure then NoPatch
            else PatchTo (?c + (if sint ?m < sint (?d - ?c) then ?m else ?d - ?c)))
         else NoPatch)"
    unfolding act [symmetric] scaleAction_in_range [OF nn lo hi, of ?d pressure] Let_def ..
  show ?thesis
  proof (cases "sint ?d < ?r")
    case True
    let ?D = "?r - sint ?d"
    have D: "sint (?c - ?d) = ?D"
      using True dn r31 by (simp add: sint32_diff c wrap32_id)
    from form True have p: "p = ?c - (if wrap32 ?rps < ?D then ?m else ?c - ?d)"
      by (simp only: if_True D m action.inject)
    show ?thesis
    proof (cases "wrap32 ?rps < ?D")
      case big: True
      with p have "p = ?c - ?m" by (simp only: if_True)
      then have "sint p = wrap32 (?r - wrap32 ?rps)" by (simp only: sint32_diff c m)
      moreover have "\<bar>wrap32 (?r - wrap32 ?rps) - ?r\<bar> \<le> ?rps"
        using nn r31 step big by (rule wrap_step_down) (use dn in linarith)
      ultimately show ?thesis by (simp only:)
    next
      case small: False
      with p have "p = ?c - (?c - ?d)" by (simp only: if_False)
      then have "sint p = sint ?d" by simp
      moreover have "?D \<le> wrap32 ?rps" using small by linarith
      then have "?D \<le> ?rps" by (rule wrap_le [OF step])
      ultimately show ?thesis using True by linarith
    qed
  next
    case nd: False
    show ?thesis
    proof (cases "?r < sint ?d")
      case False
      with nd form show ?thesis by (simp only: if_False action.distinct)
    next
      case True
      let ?D = "sint ?d - ?r"
      have D: "sint (?d - ?c) = ?D"
        using True nn d31 by (simp add: sint32_diff c wrap32_id)
      from form nd True have f2: "PatchTo p =
           (if fst pressure then
              (if 1 < ?r then PatchTo (?c - 1) else NoPatch)
            else if snd pressure then NoPatch
            else PatchTo (?c + (if wrap32 ?rps < ?D then ?m else ?d - ?c)))"
        by (simp only: if_True if_False D m)
      show ?thesis
      proof (cases "fst pressure")
        case direct: True
        with f2 have f3: "PatchTo p = (if 1 < ?r then PatchTo (?c - 1) else NoPatch)"
          by (simp only: if_True)
        have one: "1 < ?r"
        proof (rule ccontr)
          assume "\<not> 1 < ?r"
          with f3 show False by (simp only: if_False action.distinct)
        qed
        with f3 have "p = ?c - 1" by (simp only: if_True action.inject)
        then have "sint p = wrap32 (?r - 1)" by (simp add: sint32_diff c)
        also have "\<dots> = ?r - 1" using one r31 by (simp add: wrap32_id)
        finally show ?thesis using step by linarith
      next
        case nodirect: False
        have nodown: "\<not> snd pressure"
        proof
          assume "snd pressure"
          with f2 nodirect show False by (simp only: if_True if_False action.distinct)
        qed
        from f2 nodirect nodown
        have p: "p = ?c + (if wrap32 ?rps < ?D then ?m else ?d - ?c)"
          by (simp only: if_False action.inject)
        show ?thesis
        proof (cases "wrap32 ?rps < ?D")
          case big: True
          with p have "p = ?c + ?m" by (simp only: if_True)
          then have "sint p = wrap32 (?r + wrap32 ?rps)" by (simp only: sint32_add c m)
          moreover have "\<bar>wrap32 (?r + wrap32 ?rps) - ?r\<bar> \<le> ?rps"
            using nn step big by (rule wrap_step_up) (use d31 in linarith)
          ultimately show ?thesis by (simp only:)
        next
          case small: False
          with p have "p = ?c + (?d - ?c)" by (simp only: if_False)
          then have "sint p = sint ?d" by simp
          moreover have "?D \<le> wrap32 ?rps" using small by linarith
          then have "?D \<le> ?rps" by (rule wrap_le [OF step])
          ultimately show ?thesis using True by linarith
        qed
      qed
    qed
  qed
qed

lemma int32_of_int_sint: "int32_of_int (sint (w :: int32)) = w"
  by (simp add: int32_of_int_def)

lemma int32_of_int_diff: "int32_of_int a - int32_of_int b = int32_of_int (a - b)"
  by (simp add: int32_of_int_def)

lemma reaches_nonneg:
  assumes "reachesDecision opts env s key = Some (vertex, pl, g)"
  shows "0 < v_GetReplicas vertex"
proof -
  have gates: "scaleOneVertex_gates env s key = Inr (vertex, pl)"
    and nz: "v_Status_Replicas vertex \<noteq> 0"
    using assms by (simp_all add: reachesDecision_iff)
  have "uint (v_Status_Replicas vertex) \<noteq> 0"
    using nz by (simp add: uint_0_iff)
  moreover have "0 \<le> uint (v_Status_Replicas vertex)" by simp
  ultimately show ?thesis using gates_Inr_vertex(2) [OF gates] by linarith
qed

lemma clampDesired_zero:
  assumes "0 \<le> sint (v_GetMaxReplicas vertex)"
  shows "sint (clampDesired vertex 0) = max 0 (sint (v_GetMinReplicas vertex))"
  using assms by (simp add: clampDesired_def Let_def max_def)

text \<open>
  Inside the bounds, with a step that is an \<open>int32\<close> and not negative, every patch
  other than the decrement under direct back pressure lies within the bounds.
\<close>

lemma scaleAction_clamped:
  assumes nn: "0 \<le> v_GetReplicas vertex"
    and lo: "sint (v_GetMinReplicas vertex) \<le> v_GetReplicas vertex"
    and hi: "v_GetReplicas vertex \<le> sint (v_GetMaxReplicas vertex)"
    and d0: "0 \<le> sint desired0"
    and step: "0 \<le> v_GetReplicasPerScale vertex" "v_GetReplicasPerScale vertex < 2147483648"
    and nodirect: "\<not> fst pressure"
    and act: "scaleAction vertex (clampDesired vertex desired0) pressure = PatchTo p"
  shows "sint (v_GetMinReplicas vertex) \<le> sint p \<and> sint p \<le> sint (v_GetMaxReplicas vertex)"
proof -
  let ?r = "v_GetReplicas vertex" and ?rps = "v_GetReplicasPerScale vertex"
  let ?c = "int32_of_int ?r" and ?m = "int32_of_int ?rps"
  let ?d = "clampDesired vertex desired0"
  have c: "sint ?c = ?r" using nn hi by (rule sint_current)
  have r31: "?r < 2147483648" using hi sint32_range [of "v_GetMaxReplicas vertex"] by linarith
  have m: "sint ?m = ?rps" using step by (simp add: sint32_of_int wrap32_id)
  have mm: "sint (v_GetMinReplicas vertex) \<le> sint (v_GetMaxReplicas vertex)"
    using lo hi by linarith
  note dr = clampDesired_range [OF mm, of desired0]
  have dn: "0 \<le> sint ?d"
    using d0 nn hi by (intro clampDesired_nonneg) linarith+
  have d31: "sint ?d < 2147483648" using sint32_range [of ?d] by simp
  have form: "PatchTo p =
     (if sint ?d < ?r then
           PatchTo (?c - (if sint ?m < sint (?c - ?d) then ?m else ?c - ?d))
         else if ?r < sint ?d then
           (if fst pressure then
              (if 1 < ?r then PatchTo (?c - 1) else NoPatch)
            else if snd pressure then NoPatch
            else PatchTo (?c + (if sint ?m < sint (?d - ?c) then ?m else ?d - ?c)))
         else NoPatch)"
    unfolding act [symmetric] scaleAction_in_range [OF nn lo hi, of ?d pressure] Let_def ..
  show ?thesis
  proof (cases "sint ?d < ?r")
    case True
    let ?D = "?r - sint ?d"
    have D: "sint (?c - ?d) = ?D"
      using True dn r31 by (simp add: sint32_diff c wrap32_id)
    from form True have p: "p = ?c - (if ?rps < ?D then ?m else ?c - ?d)"
      by (simp only: if_True D m action.inject)
    show ?thesis
    proof (cases "?rps < ?D")
      case big: True
      with p have "p = ?c - ?m" by (simp only: if_True)
      then have "sint p = wrap32 (?r - ?rps)" by (simp only: sint32_diff c m)
      also have "\<dots> = ?r - ?rps"
        using big dn step r31 by (intro wrap32_id) linarith+
      finally show ?thesis using big dr step hi by linarith
    next
      case small: False
      with p have "p = ?c - (?c - ?d)" by (simp only: if_False)
      then have "p = ?d" by simp
      with dr show ?thesis by simp
    qed
  next
    case nd: False
    show ?thesis
    proof (cases "?r < sint ?d")
      case False
      with nd form show ?thesis by (simp only: if_False action.distinct)
    next
      case True
      let ?D = "sint ?d - ?r"
      have D: "sint (?d - ?c) = ?D"
        using True nn d31 by (simp add: sint32_diff c wrap32_id)
      from form nd True nodirect have f2: "PatchTo p =
           (if snd pressure then NoPatch
            else PatchTo (?c + (if ?rps < ?D then ?m else ?d - ?c)))"
        by (simp only: if_True if_False D m)
      have nodown: "\<not> snd pressure"
      proof
        assume "snd pressure"
        with f2 show False by (simp only: if_True action.distinct)
      qed
      from f2 nodown
      have p: "p = ?c + (if ?rps < ?D then ?m else ?d - ?c)"
        by (simp only: if_False action.inject)
      show ?thesis
      proof (cases "?rps < ?D")
        case big: True
        with p have "p = ?c + ?m" by (simp only: if_True)
        then have "sint p = wrap32 (?r + ?rps)" by (simp only: sint32_add c m)
        also have "\<dots> = ?r + ?rps"
          using big nn step d31 by (intro wrap32_id) linarith+
        finally show ?thesis using big dr step lo by linarith
      next
        case small: False
        with p have "p = ?c + (?d - ?c)" by (simp only: if_False)
        then have "p = ?d" by simp
        with dr show ?thesis by simp
      qed
    qed
  qed
qed

section \<open>The watch set after an evaluation\<close>

text \<open>
  An evaluation leaves the watch set as it was or removes its key; so the invariant of
  the watch set, which holds of a new scaler and is kept by \<open>StartWatching\<close> and
  \<open>StopWatching\<close>, is kept by every evaluation too.
\<close>

lemma sameWatchSet_refl: "sameWatchSet s s"
  by (simp add: sameWatchSet_def)

lemma sameWatchSet_inv: "sameWatchSet s s' \<Longrightarrow> watch_inv s \<Longrightarrow> watch_inv s'"
  by (simp add: sameWatchSet_def watch_inv_def)

lemma getDaemonClient_watch:
  "getDaemonClient opts env s url = Inr (s1, effs) \<Longrightarrow> sameWatchSet s s1"
  by (auto simp: getDaemonClient_def sameWatchSet_def split: prod.splits option.splits if_splits)

lemma metrics_watch:
  "(case scaleOneVertex_metrics opts env s key vertex pl of
      Inl out \<Rightarrow> sameWatchSet s (out_scaler out)
    | Inr g \<Rightarrow> sameWatchSet s (g_scaler g))"
proof (cases "getDaemonClient opts env s (pl_GetDaemonServiceURL pl)")
  case (Inl effs0)
  then show ?thesis
    by (simp add: scaleOneVertex_metrics_def finish_def sameWatchSet_def)
next
  case (Inr r)
  obtain s1 effs1 where r: "r = (s1, effs1)" by (cases r)
  have "sameWatchSet s s1" using Inr r by (auto intro: getDaemonClient_watch)
  then show ?thesis
    using Inr r
    by (auto simp: scaleOneVertex_metrics_def finish_def Let_def sameWatchSet_def
             split: option.split prod.split sum.split)
qed

lemma decide_watch:
  "sameWatchSet (g_scaler g) (out_scaler (scaleOneVertex_decide opts env key vertex pl g))"
  by (simp add: scaleOneVertex_decide_def finish_def patchVertexReplicas_def Let_def
        sameWatchSet_def split: sum.split prod.split action.split)

lemma gates_watch:
  "scaleOneVertex_gates env s key = Inl out \<Longrightarrow>
     out_scaler out = s \<or> out_scaler out = StopWatching key s"
  by (auto simp: scaleOneVertex_gates_def finish_def
           split: list.splits get_result.splits if_splits)

lemma scaleOneVertex_watch:
  "sameWatchSet s (out_scaler (scaleOneVertex opts env s key))
   \<or> sameWatchSet (StopWatching key s) (out_scaler (scaleOneVertex opts env s key))"
proof (cases "scaleOneVertex_gates env s key")
  case (Inl out)
  then show ?thesis
    using gates_watch [OF Inl] by (auto simp: scaleOneVertex_def sameWatchSet_refl)
next
  case (Inr r)
  obtain vertex pl where r: "r = (vertex, pl)" by (cases r)
  show ?thesis
  proof (cases "v_Status_Replicas vertex = 0")
    case True
    then show ?thesis
      using Inr r
      by (simp add: scaleOneVertex_def patchVertexReplicas_def finish_def sameWatchSet_refl)
  next
    case nz: False
    show ?thesis
    proof (cases "scaleOneVertex_metrics opts env s key vertex pl")
      case (Inl out)
      then show ?thesis
        using Inr r nz metrics_watch [of s opts env key vertex pl]
        by (simp add: scaleOneVertex_def)
    next
      case g: (Inr g)
      have "sameWatchSet s (g_scaler g)"
        using g metrics_watch [of s opts env key vertex pl] by simp
      moreover have "sameWatchSet (g_scaler g)
                       (out_scaler (scaleOneVertex_decide opts env key vertex pl g))"
        by (rule decide_watch)
      ultimately have "sameWatchSet s (out_scaler (scaleOneVertex_decide opts env key vertex pl g))"
        by (simp add: sameWatchSet_def)
      then show ?thesis
        using Inr r nz g by (simp add: scaleOneVertex_def)
    qed
  qed
qed

lemma watch_inv_scaleOneVertex:
  assumes "watch_inv s"
  shows "watch_inv (out_scaler (scaleOneVertex opts env s key))"
  using scaleOneVertex_watch [of s opts env key] assms
  by (auto intro: sameWatchSet_inv watch_inv_StopWatching)

section \<open>The claims\<close>

subsection \<open>C9: the watch set\<close>

text \<open>
  Claim C9.  \<open>StartWatching\<close> and \<open>StopWatching\<close> are idempotent: a second consecutive
  call with the same key leaves the scaler unchanged.  \<open>StartWatching\<close> appends the key
  at the back of the list exactly when the key is absent.  After any sequence of the two
  operations on a new scaler the map and the list hold the same set of keys and the list
  has no duplicates.
\<close>

theorem watch_set_idempotent:
  "StartWatching key (StartWatching key s) = StartWatching key s
   \<and> StopWatching key (StopWatching key s) = StopWatching key s
   \<and> watchedKeys (StartWatching key s) =
       (if Contains s key then watchedKeys s else watchedKeys s @ [key])
   \<and> dom (vertexMap (run_watch_ops ops NewScaler))
       = set (watchedKeys (run_watch_ops ops NewScaler))
   \<and> distinct (watchedKeys (run_watch_ops ops NewScaler))"
proof -
  have inv: "watch_inv (run_watch_ops ops NewScaler)"
    using watch_inv_NewScaler by (rule watch_inv_run_watch_ops)
  then have "distinct (watchedKeys (run_watch_ops ops NewScaler))"
    by (simp add: watch_inv_def watchedKeys_def)
  with inv show ?thesis
    by (simp add: StartWatching_twice StopWatching_twice watchedKeys_StartWatching
          watch_inv_same_keys)
qed

text \<open>The claim on a scaler that watches \<open>ns/p-a\<close>, after a start, a start and a stop.\<close>

theorem watch_set_idempotent_witness:
  "StartWatching ''ns/p-a'' (StartWatching ''ns/p-a'' ex_scaler) = StartWatching ''ns/p-a'' ex_scaler
   \<and> StopWatching ''ns/p-a'' (StopWatching ''ns/p-a'' ex_scaler) = StopWatching ''ns/p-a'' ex_scaler
   \<and> watchedKeys (StartWatching ''ns/p-a'' ex_scaler) =
       (if Contains ex_scaler ''ns/p-a'' then watchedKeys ex_scaler
        else watchedKeys ex_scaler @ [''ns/p-a''])
   \<and> dom (vertexMap (run_watch_ops [Start ''ns/p-a'', Start ''ns/p-b'', Stop ''ns/p-a''] NewScaler))
       = set (watchedKeys (run_watch_ops [Start ''ns/p-a'', Start ''ns/p-b'', Stop ''ns/p-a''] NewScaler))
   \<and> distinct (watchedKeys (run_watch_ops [Start ''ns/p-a'', Start ''ns/p-b'', Stop ''ns/p-a''] NewScaler))"
  by (rule watch_set_idempotent)

subsection \<open>C10: direct pressure implies downstream pressure\<close>

text \<open>
  Claim C10.  For every pipeline, vertex and metrics cache: when \<open>hasBackPressure\<close>
  returns \<open>directPressure = true\<close> it also returns \<open>downstreamPressure = true\<close>.
\<close>

theorem direct_implies_downstream:
  "fst (fst (hasBackPressure pf opts pl vertex cache))
     \<longrightarrow> snd (fst (hasBackPressure pf opts pl vertex cache))"
  unfolding hasBackPressure_def
  by (rule hasBackPressure_loop_direct_downstream) simp

text \<open>Vertex \<open>a\<close> of the example has direct pressure from vertex \<open>b\<close>, hence both.\<close>

theorem direct_implies_downstream_witness:
  "fst (fst (hasBackPressure ex_platform ex_opts ex_pipeline (ex_vertex 3 1 2) (vertexMetricsCache ex_scaler)))
   \<and> snd (fst (hasBackPressure ex_platform ex_opts ex_pipeline (ex_vertex 3 1 2) (vertexMetricsCache ex_scaler)))"
proof -
  have direct:
    "fst (fst (hasBackPressure ex_platform ex_opts ex_pipeline (ex_vertex 3 1 2) (vertexMetricsCache ex_scaler)))"
    by (simp add: model_defs)
  with direct_implies_downstream
         [of ex_platform ex_opts ex_pipeline "ex_vertex 3 1 2" "vertexMetricsCache ex_scaler"]
  show ?thesis by simp
qed

subsection \<open>C8: a vertex that is not found\<close>

text \<open>
  Claim C8.  For every watched key whose two parts name a vertex that the cluster does
  not find, the evaluation removes the key from the watch set (\<open>Contains\<close> becomes false
  and \<open>Length\<close> decreases by one), calls neither the daemon nor \<open>patchVertexReplicas\<close>,
  and returns no error.
\<close>

theorem not_found_stops_watching:
  assumes "watch_inv s" and "Contains s key"
    and "strings_Split key CHR ''/'' = [namespace, vertexFullName]"
    and "getVertex env namespace vertexFullName = NotFound"
  shows "\<not> Contains (out_scaler (scaleOneVertex opts env s key)) key
       \<and> Suc (Length (out_scaler (scaleOneVertex opts env s key))) = Length s
       \<and> out_effects (scaleOneVertex opts env s key) = []
       \<and> out_ret (scaleOneVertex opts env s key) = None"
proof -
  have "scaleOneVertex opts env s key = finish (StopWatching key s) [] None"
    using assms(3,4) by (simp add: scaleOneVertex_def scaleOneVertex_gates_def)
  then show ?thesis
    using assms(1,2) by (simp add: finish_def Length_StopWatching Contains_StopWatching)
qed

text \<open>The example scaler watches \<open>ns/p-a\<close>; the cluster does not find the vertex.\<close>

theorem not_found_stops_watching_witness:
  "watch_inv ex_scaler \<and> Contains ex_scaler ''ns/p-a''
   \<and> strings_Split ''ns/p-a'' CHR ''/'' = [''ns'', ''p-a'']
   \<and> getVertex (ex_env NotFound (Num 100) 500 100) ''ns'' ''p-a'' = NotFound
   \<and> \<not> Contains (out_scaler (scaleOneVertex ex_opts (ex_env NotFound (Num 100) 500 100)
                                 ex_scaler ''ns/p-a'')) ''ns/p-a''
   \<and> Suc (Length (out_scaler (scaleOneVertex ex_opts (ex_env NotFound (Num 100) 500 100)
                                 ex_scaler ''ns/p-a''))) = Length ex_scaler
   \<and> out_effects (scaleOneVertex ex_opts (ex_env NotFound (Num 100) 500 100)
                     ex_scaler ''ns/p-a'') = []
   \<and> out_ret (scaleOneVertex ex_opts (ex_env NotFound (Num 100) 500 100)
                 ex_scaler ''ns/p-a'') = None"
proof -
  have h1: "watch_inv ex_scaler"
    by (auto simp: watch_inv_def model_defs)
  have h2: "Contains ex_scaler ''ns/p-a''"
    by (simp add: Contains_def model_defs)
  have h3: "strings_Split ''ns/p-a'' CHR ''/'' = [''ns'', ''p-a'']"
    by simp
  have h4: "getVertex (ex_env NotFound (Num 100) 500 100) ''ns'' ''p-a'' = NotFound"
    by (simp add: ex_env_def)
  from not_found_stops_watching [OF h1 h2 h3 h4, of ex_opts] h1 h2 h3 h4
  show ?thesis by simp
qed

subsection \<open>C7: cooldown\<close>



subsection \<open>C6: the zero-replica peek\<close>



subsection \<open>C5: the step law\<close>

text \<open>
  Claim C5 as stated fails: with a step of 0 the vertex of the example, at 3 replicas
  inside its bounds 1 and 10 and under direct back pressure, is patched to 2, which
  differs from 3 by more than the step.
\<close>

theorem step_law_counterexample:
  "sint (v_GetMinReplicas (ex_vertex 3 1 0)) \<le> v_GetReplicas (ex_vertex 3 1 0)
   \<and> v_GetReplicas (ex_vertex 3 1 0) \<le> sint (v_GetMaxReplicas (ex_vertex 3 1 0))
   \<and> patchesOf (out_effects (scaleOneVertex ex_opts
                 (ex_env (Found (ex_vertex 3 1 0)) (Num 100) 500 100) ex_scaler ''ns/p-a'')) = [2]
   \<and> \<not> \<bar>sint (2 :: int32) - v_GetReplicas (ex_vertex 3 1 0)\<bar>
         \<le> v_GetReplicasPerScale (ex_vertex 3 1 0)"
  by (simp add: model_defs)

text \<open>
  Claim C5, amended.  For every evaluation that fetches a vertex whose specified
  replicas lie inside its bounds and whose step is at least 1, every value passed to
  \<open>patchVertexReplicas\<close> differs from the specified replicas by at most the step.
\<close>

theorem step_law:
  assumes "strings_Split key CHR ''/'' = [namespace, vertexFullName]"
    and "getVertex env namespace vertexFullName = Found vertex"
    and "sint (v_GetMinReplicas vertex) \<le> v_GetReplicas vertex"
    and "v_GetReplicas vertex \<le> sint (v_GetMaxReplicas vertex)"
    and "1 \<le> v_GetReplicasPerScale vertex"
  shows "\<forall>p \<in> set (patchesOf (out_effects (scaleOneVertex opts env s key))).
           \<bar>sint p - v_GetReplicas vertex\<bar> \<le> v_GetReplicasPerScale vertex"
proof
  fix p
  assume "p \<in> set (patchesOf (out_effects (scaleOneVertex opts env s key)))"
  then show "\<bar>sint p - v_GetReplicas vertex\<bar> \<le> v_GetReplicasPerScale vertex"
  proof (cases rule: patch_origin)
    case (1 vertex' pl)
    have v: "vertex' = vertex"
      using gates_Inr_vertex(1) [OF 1(1)] assms(1,2) by auto
    have "v_GetReplicas vertex = 0"
      using gates_Inr_vertex(2) [OF 1(1)] 1(2) v by simp
    with 1(3) assms(5) show ?thesis by simp
  next
    case (2 vertex' pl g desired0)
    have gates: "scaleOneVertex_gates env s key = Inr (vertex', pl)"
      using 2(1) by (simp add: reachesDecision_iff)
    have v: "vertex' = vertex"
      using gates_Inr_vertex(1) [OF gates] assms(1,2) by auto
    have nn: "0 \<le> v_GetReplicas vertex"
      using gates_Inr_vertex(2) [OF gates] v by (metis uint_ge_0)
    show ?thesis
      using nn assms(3,4) computeDesired_nonneg [OF 2(2)] assms(5) 2(3) [unfolded v]
      by (rule scaleAction_step)
  qed
qed

text \<open>The example vertex at 3 replicas with step 2 is patched to 2.\<close>

theorem step_law_witness:
  "strings_Split ''ns/p-a'' CHR ''/'' = [''ns'', ''p-a'']
   \<and> getVertex (ex_env (Found (ex_vertex 3 1 2)) (Num 100) 500 100) ''ns'' ''p-a'' = Found (ex_vertex 3 1 2)
   \<and> sint (v_GetMinReplicas (ex_vertex 3 1 2)) \<le> v_GetReplicas (ex_vertex 3 1 2)
   \<and> v_GetReplicas (ex_vertex 3 1 2) \<le> sint (v_GetMaxReplicas (ex_vertex 3 1 2))
   \<and> 1 \<le> v_GetReplicasPerScale (ex_vertex 3 1 2)
   \<and> patchesOf (out_effects (scaleOneVertex ex_opts (ex_env (Found (ex_vertex 3 1 2)) (Num 100) 500 100) ex_scaler ''ns/p-a'')) = [2]
   \<and> \<bar>sint (2 :: int32) - v_GetReplicas (ex_vertex 3 1 2)\<bar>
       \<le> v_GetReplicasPerScale (ex_vertex 3 1 2)"
proof -
  have h1: "strings_Split ''ns/p-a'' CHR ''/'' = [''ns'', ''p-a'']"
    by simp
  have h2: "getVertex (ex_env (Found (ex_vertex 3 1 2)) (Num 100) 500 100) ''ns'' ''p-a'' = Found (ex_vertex 3 1 2)"
    by (simp add: ex_env_def)
  have h3: "sint (v_GetMinReplicas (ex_vertex 3 1 2)) \<le> v_GetReplicas (ex_vertex 3 1 2)"
    by (simp add: ex_vertex_def)
  have h4: "v_GetReplicas (ex_vertex 3 1 2) \<le> sint (v_GetMaxReplicas (ex_vertex 3 1 2))"
    by (simp add: ex_vertex_def)
  have h5: "1 \<le> v_GetReplicasPerScale (ex_vertex 3 1 2)"
    by (simp add: ex_vertex_def)
  have p: "patchesOf (out_effects (scaleOneVertex ex_opts (ex_env (Found (ex_vertex 3 1 2)) (Num 100) 500 100) ex_scaler ''ns/p-a'')) = [2]"
    by (simp add: model_defs)
  from step_law [OF h1 h2 h3 h4 h5, of ex_opts ex_scaler] p
  have "\<bar>sint (2 :: int32) - v_GetReplicas (ex_vertex 3 1 2)\<bar>
          \<le> v_GetReplicasPerScale (ex_vertex 3 1 2)"
    by simp
  with h1 h2 h3 h4 h5 p show ?thesis by simp
qed

subsection \<open>C2: both totals zero\<close>

text \<open>
  Claim C2 as stated fails: the vertex of the example at 3 replicas, with minimum 0 and
  step 2, reaches the computation of the desired replicas with total pending 0 and total
  rate 0, and is patched to 1, not to 0.
\<close>

theorem zero_scale_patch_counterexample:
  "reachesDecision ex_opts (ex_env (Found (ex_vertex 3 0 2)) (Num 0) 0 100) ex_scaler ''ns/p-a''
     = Some (ex_vertex 3 0 2, ex_pipeline, ex_gathered (Num 0) 0)
   \<and> totalPending (ex_gathered (Num 0) 0) = 0
   \<and> feq (totalRate (ex_gathered (Num 0) 0)) (Num 0)
   \<and> 0 < sint (int32_of_int (v_GetReplicas (ex_vertex 3 0 2)))
   \<and> patchesOf (out_effects (scaleOneVertex ex_opts
                 (ex_env (Found (ex_vertex 3 0 2)) (Num 0) 0 100) ex_scaler ''ns/p-a'')) = [1]
   \<and> (1 :: int32) \<noteq> 0"
  by (simp add: reachesDecision_def model_defs)

text \<open>
  Claim C2, amended.  For every evaluation that reaches the computation of the desired
  replicas with total pending 0 and total rate 0, with positive specified replicas inside
  the bounds and a step that is an \<open>int32\<close> and not negative: the evaluation steers to
  the larger of 0 and the minimum.  It makes no call of \<open>patchVertexReplicas\<close> when the
  replicas already are that number, and otherwise exactly one call, with the replicas
  lowered by the step but not below that number.  So the patch is to 0 exactly when the
  minimum is at most 0 and the replicas are at most the step.
\<close>

theorem zero_scale_patch:
  assumes reach: "reachesDecision opts env s key = Some (vertex, pl, g)"
    and zero: "totalPending g = 0" "feq (totalRate g) (Num 0)"
    and pos: "0 < v_GetReplicas vertex"
    and lo: "sint (v_GetMinReplicas vertex) \<le> v_GetReplicas vertex"
    and hi: "v_GetReplicas vertex \<le> sint (v_GetMaxReplicas vertex)"
    and step: "0 \<le> v_GetReplicasPerScale vertex" "v_GetReplicasPerScale vertex < 2147483648"
  shows "patchesOf (out_effects (scaleOneVertex opts env s key)) =
     (if v_GetReplicas vertex = max 0 (sint (v_GetMinReplicas vertex)) then []
      else [int32_of_int (max (max 0 (sint (v_GetMinReplicas vertex)))
                              (v_GetReplicas vertex - v_GetReplicasPerScale vertex))])"
proof -
  let ?r = "v_GetReplicas vertex" and ?rps = "v_GetReplicasPerScale vertex"
  let ?c = "int32_of_int ?r" and ?m = "int32_of_int ?rps"
  let ?t = "clampDesired vertex 0"
  let ?pr = "fst (hasBackPressure (arch env) opts pl vertex (vertexMetricsCache (g_scaler g)))"
  have nn: "0 \<le> ?r" using pos by simp
  have r31: "?r < 2147483648" using hi sint32_range [of "v_GetMaxReplicas vertex"] by linarith
  have t: "sint ?t = max 0 (sint (v_GetMinReplicas vertex))"
    using pos hi by (intro clampDesired_zero) linarith
  have m: "sint ?m = ?rps" using step by (simp add: sint32_of_int wrap32_id)
  have c: "sint ?c = ?r" using nn hi by (rule sint_current)
  have cd: "computeDesired env vertex g = Inr 0"
    using zero by (simp add: computeDesired_def)
  have patches: "patchesOf (out_effects (scaleOneVertex opts env s key)) =
      (case scaleAction vertex ?t ?pr of NoPatch \<Rightarrow> [] | PatchTo n \<Rightarrow> [n])"
    by (simp add: reaches_patches [OF reach] cd)
  note form = scaleAction_in_range [OF nn lo hi, of ?t ?pr, unfolded Let_def]
  show ?thesis
  proof (cases "?r = max 0 (sint (v_GetMinReplicas vertex))")
    case True
    then have "scaleAction vertex ?t ?pr = NoPatch"
      using t by (simp add: form)
    with True patches show ?thesis by simp
  next
    case False
    then have lt: "sint ?t < ?r" using t lo pos by (simp add: max_def split: if_splits)
    have tn: "0 \<le> sint ?t" using t by simp
    have "wrap32 (?r - sint ?t) = ?r - sint ?t"
      using lt tn r31 by (intro wrap32_id) linarith+
    then have D: "sint (?c - ?t) = ?r - sint ?t"
      by (simp only: sint32_diff c)
    have act: "scaleAction vertex ?t ?pr =
        PatchTo (?c - (if ?rps < ?r - sint ?t then ?m else ?c - ?t))"
      using lt by (simp add: form D m)
    have "?c - (if ?rps < ?r - sint ?t then ?m else ?c - ?t) =
            int32_of_int (max (sint ?t) (?r - ?rps))"
    proof (cases "?rps < ?r - sint ?t")
      case True
      then have "max (sint ?t) (?r - ?rps) = ?r - ?rps" by simp
      with True show ?thesis by (simp add: int32_of_int_diff)
    next
      case False
      then have "max (sint ?t) (?r - ?rps) = sint ?t" by simp
      with False show ?thesis by (simp add: int32_of_int_sint)
    qed
    with act patches False show ?thesis by (simp add: t)
  qed
qed

text \<open>
  The example vertex at 2 replicas, with minimum 0 and step 2, is patched to 0.
\<close>

theorem zero_scale_patch_witness:
  "reachesDecision ex_opts (ex_env (Found (ex_vertex 2 0 2)) (Num 0) 0 100) ex_scaler ''ns/p-a''
     = Some (ex_vertex 2 0 2, ex_pipeline, ex_gathered (Num 0) 0)
   \<and> totalPending (ex_gathered (Num 0) 0) = 0
   \<and> feq (totalRate (ex_gathered (Num 0) 0)) (Num 0)
   \<and> 0 < v_GetReplicas (ex_vertex 2 0 2)
   \<and> sint (v_GetMinReplicas (ex_vertex 2 0 2)) \<le> v_GetReplicas (ex_vertex 2 0 2)
   \<and> v_GetReplicas (ex_vertex 2 0 2) \<le> sint (v_GetMaxReplicas (ex_vertex 2 0 2))
   \<and> 0 \<le> v_GetReplicasPerScale (ex_vertex 2 0 2)
   \<and> v_GetReplicasPerScale (ex_vertex 2 0 2) < 2147483648
   \<and> patchesOf (out_effects (scaleOneVertex ex_opts
                 (ex_env (Found (ex_vertex 2 0 2)) (Num 0) 0 100) ex_scaler ''ns/p-a'')) = [0]"
proof -
  have h1: "reachesDecision ex_opts (ex_env (Found (ex_vertex 2 0 2)) (Num 0) 0 100)
              ex_scaler ''ns/p-a''
            = Some (ex_vertex 2 0 2, ex_pipeline, ex_gathered (Num 0) 0)"
    by (simp add: reachesDecision_def model_defs)
  have h2: "totalPending (ex_gathered (Num 0) 0) = 0"
    by (simp add: ex_gathered_def)
  have h3: "feq (totalRate (ex_gathered (Num 0) 0)) (Num 0)"
    by (simp add: ex_gathered_def)
  have h4: "0 < v_GetReplicas (ex_vertex 2 0 2)"
    by (simp add: ex_vertex_def)
  have h5: "sint (v_GetMinReplicas (ex_vertex 2 0 2)) \<le> v_GetReplicas (ex_vertex 2 0 2)"
    by (simp add: ex_vertex_def)
  have h6: "v_GetReplicas (ex_vertex 2 0 2) \<le> sint (v_GetMaxReplicas (ex_vertex 2 0 2))"
    by (simp add: ex_vertex_def)
  have h7: "0 \<le> v_GetReplicasPerScale (ex_vertex 2 0 2)"
    by (simp add: ex_vertex_def)
  have h8: "v_GetReplicasPerScale (ex_vertex 2 0 2) < 2147483648"
    by (simp add: ex_vertex_def)
  have "patchesOf (out_effects (scaleOneVertex ex_opts
            (ex_env (Found (ex_vertex 2 0 2)) (Num 0) 0 100) ex_scaler ''ns/p-a'')) = [0]"
    using zero_scale_patch [OF h1 h2 h3 h4 h5 h6 h7 h8]
    by (simp add: ex_vertex_def int32_of_int_def)
  with h1 h2 h3 h4 h5 h6 h7 h8 show ?thesis by simp
qed

subsection \<open>C3: the back-pressure gate\<close>

text \<open>
  Claim C3 as stated fails: the vertex of the example at 2 replicas, below its minimum 3,
  has a desired number of 3 and direct back pressure from vertex \<open>b\<close>; it is patched to
  3, not to 1.
\<close>

theorem back_pressure_gate_counterexample:
  "reachesDecision ex_opts (ex_env (Found (ex_vertex 2 3 2)) (Num 100) 500 100) ex_scaler ''ns/p-a''
     = Some (ex_vertex 2 3 2, ex_pipeline, ex_gathered (Num 100) 500)
   \<and> computeDesired (ex_env (Found (ex_vertex 2 3 2)) (Num 100) 500 100) (ex_vertex 2 3 2) (ex_gathered (Num 100) 500) = Inr 3
   \<and> sint (int32_of_int (v_GetReplicas (ex_vertex 2 3 2)))
       < sint (clampDesired (ex_vertex 2 3 2) 3)
   \<and> \<lparr> e_From = ''a'', e_To = ''b'' \<rparr>
       \<in> set (pl_GetDownstreamEdges ex_pipeline (v_Spec_Name (ex_vertex 2 3 2)))
   \<and> e_From \<lparr> e_From = ''a'', e_To = ''b'' \<rparr> = v_Spec_Name (ex_vertex 2 3 2)
   \<and> edgePressure (arch (ex_env (Found (ex_vertex 2 3 2)) (Num 100) 500 100)) ex_opts ex_pipeline
         (vertexMetricsCache (g_scaler (ex_gathered (Num 100) 500)))
         \<lparr> e_From = ''a'', e_To = ''b'' \<rparr>
   \<and> 1 < sint (int32_of_int (v_GetReplicas (ex_vertex 2 3 2)))
   \<and> patchesOf (out_effects (scaleOneVertex ex_opts (ex_env (Found (ex_vertex 2 3 2)) (Num 100) 500 100) ex_scaler ''ns/p-a'')) = [3]
   \<and> (3 :: int32) \<noteq> int32_of_int (v_GetReplicas (ex_vertex 2 3 2)) - 1"
  by (simp add: reachesDecision_def edgePressure_def model_defs)

text \<open>
  Claim C3, amended.  For every evaluation that reaches the computation of the desired
  replicas with specified replicas inside the bounds, where the clamped desired number
  exceeds the replicas and the destination of some downstream edge that starts at the
  vertex has a cached pending and a cached length whose ratio reaches the threshold:
  when the replicas exceed 1 and exceed the minimum, the evaluation calls
  \<open>patchVertexReplicas\<close> exactly once, with the replicas minus 1, a number within the
  bounds; when the replicas are 1 it makes no such call.  Replicas that equal a minimum
  above 1 are left out.
\<close>

theorem back_pressure_gate:
  assumes reach: "reachesDecision opts env s key = Some (vertex, pl, g)"
    and desired: "computeDesired env vertex g = Inr desired0"
    and lo: "sint (v_GetMinReplicas vertex) \<le> v_GetReplicas vertex"
    and hi: "v_GetReplicas vertex \<le> sint (v_GetMaxReplicas vertex)"
    and above: "sint (v_GetMinReplicas vertex) < v_GetReplicas vertex
                \<or> v_GetReplicas vertex \<le> 1"
    and up: "v_GetReplicas vertex < sint (clampDesired vertex desired0)"
    and edge: "e \<in> set (pl_GetDownstreamEdges pl (v_Spec_Name vertex))"
      "e_From e = v_Spec_Name vertex"
    and pressure: "edgePressure (arch env) opts pl (vertexMetricsCache (g_scaler g)) e"
  shows "patchesOf (out_effects (scaleOneVertex opts env s key)) =
           (if 1 < v_GetReplicas vertex then [int32_of_int (v_GetReplicas vertex) - 1] else [])
       \<and> (\<forall>p \<in> set (patchesOf (out_effects (scaleOneVertex opts env s key))).
             sint p = v_GetReplicas vertex - 1
             \<and> sint (v_GetMinReplicas vertex) \<le> sint p
             \<and> sint p \<le> sint (v_GetMaxReplicas vertex))"
proof -
  let ?r = "v_GetReplicas vertex"
  let ?pr = "fst (hasBackPressure (arch env) opts pl vertex (vertexMetricsCache (g_scaler g)))"
  have nn: "0 \<le> ?r" using reaches_nonneg [OF reach] by simp
  have direct: "fst ?pr"
    unfolding hasBackPressure_def using edge pressure by (rule hasBackPressure_loop_direct)
  have "scaleAction vertex (clampDesired vertex desired0) ?pr =
      (if 1 < ?r then PatchTo (int32_of_int ?r - 1) else NoPatch)"
    using up direct by (simp add: scaleAction_in_range [OF nn lo hi] Let_def)
  then have patches: "patchesOf (out_effects (scaleOneVertex opts env s key)) =
      (if 1 < ?r then [int32_of_int ?r - 1] else [])"
    by (simp add: reaches_patches [OF reach] desired)
  have inside: "sint (int32_of_int ?r - 1) = ?r - 1
                \<and> sint (v_GetMinReplicas vertex) \<le> sint (int32_of_int ?r - 1)
                \<and> sint (int32_of_int ?r - 1) \<le> sint (v_GetMaxReplicas vertex)"
    if one: "1 < ?r"
  proof -
    have r31: "?r < 2147483648"
      using hi sint32_range [of "v_GetMaxReplicas vertex"] by linarith
    have "sint (int32_of_int ?r - 1) = wrap32 (?r - 1)"
      using sint_current [OF nn hi] by (simp add: sint32_diff)
    also have "\<dots> = ?r - 1"
      using one r31 by (intro wrap32_id) linarith+
    finally have v: "sint (int32_of_int ?r - 1) = ?r - 1" .
    from above one have "sint (v_GetMinReplicas vertex) < ?r" by linarith
    with v hi show ?thesis by linarith
  qed
  show ?thesis
  proof (cases "1 < ?r")
    case True
    with patches inside [OF True] show ?thesis by simp
  next
    case False
    with patches show ?thesis by simp
  qed
qed

text \<open>
  The example vertex at 3 replicas, above its minimum 1 and below its maximum 10, is
  patched to 2.
\<close>

theorem back_pressure_gate_witness:
  "reachesDecision ex_opts (ex_env (Found (ex_vertex 3 1 2)) (Num 100) 500 100) ex_scaler ''ns/p-a''
     = Some (ex_vertex 3 1 2, ex_pipeline, ex_gathered (Num 100) 500)
   \<and> computeDesired (ex_env (Found (ex_vertex 3 1 2)) (Num 100) 500 100) (ex_vertex 3 1 2) (ex_gathered (Num 100) 500) = Inr 5
   \<and> sint (v_GetMinReplicas (ex_vertex 3 1 2)) \<le> v_GetReplicas (ex_vertex 3 1 2)
   \<and> v_GetReplicas (ex_vertex 3 1 2) \<le> sint (v_GetMaxReplicas (ex_vertex 3 1 2))
   \<and> sint (v_GetMinReplicas (ex_vertex 3 1 2)) < v_GetReplicas (ex_vertex 3 1 2)
   \<and> v_GetReplicas (ex_vertex 3 1 2) < sint (clampDesired (ex_vertex 3 1 2) 5)
   \<and> \<lparr> e_From = ''a'', e_To = ''b'' \<rparr>
       \<in> set (pl_GetDownstreamEdges ex_pipeline (v_Spec_Name (ex_vertex 3 1 2)))
   \<and> e_From \<lparr> e_From = ''a'', e_To = ''b'' \<rparr> = v_Spec_Name (ex_vertex 3 1 2)
   \<and> edgePressure (arch (ex_env (Found (ex_vertex 3 1 2)) (Num 100) 500 100)) ex_opts ex_pipeline
         (vertexMetricsCache (g_scaler (ex_gathered (Num 100) 500)))
         \<lparr> e_From = ''a'', e_To = ''b'' \<rparr>
   \<and> patchesOf (out_effects (scaleOneVertex ex_opts (ex_env (Found (ex_vertex 3 1 2)) (Num 100) 500 100) ex_scaler ''ns/p-a'')) = [2]
   \<and> sint (v_GetMinReplicas (ex_vertex 3 1 2)) \<le> sint (2 :: int32)
   \<and> sint (2 :: int32) \<le> sint (v_GetMaxReplicas (ex_vertex 3 1 2))"
proof -
  have h1: "reachesDecision ex_opts (ex_env (Found (ex_vertex 3 1 2)) (Num 100) 500 100) ex_scaler ''ns/p-a''
              = Some (ex_vertex 3 1 2, ex_pipeline, ex_gathered (Num 100) 500)"
    by (simp add: reachesDecision_def model_defs)
  have h2: "computeDesired (ex_env (Found (ex_vertex 3 1 2)) (Num 100) 500 100) (ex_vertex 3 1 2) (ex_gathered (Num 100) 500) = Inr 5"
    by (simp add: model_defs)
  have h3: "sint (v_GetMinReplicas (ex_vertex 3 1 2)) \<le> v_GetReplicas (ex_vertex 3 1 2)"
    by (simp add: ex_vertex_def)
  have h4: "v_GetReplicas (ex_vertex 3 1 2) \<le> sint (v_GetMaxReplicas (ex_vertex 3 1 2))"
    by (simp add: ex_vertex_def)
  have h5: "sint (v_GetMinReplicas (ex_vertex 3 1 2)) < v_GetReplicas (ex_vertex 3 1 2)
            \<or> v_GetReplicas (ex_vertex 3 1 2) \<le> 1"
    by (simp add: ex_vertex_def)
  have h6: "v_GetReplicas (ex_vertex 3 1 2) < sint (clampDesired (ex_vertex 3 1 2) 5)"
    by (simp add: ex_vertex_def clampDesired_def)
  have h7: "\<lparr> e_From = ''a'', e_To = ''b'' \<rparr>
              \<in> set (pl_GetDownstreamEdges ex_pipeline (v_Spec_Name (ex_vertex 3 1 2)))"
    by (simp add: ex_vertex_def ex_pipeline_def)
  have h8: "e_From \<lparr> e_From = ''a'', e_To = ''b'' \<rparr> = v_Spec_Name (ex_vertex 3 1 2)"
    by (simp add: ex_vertex_def)
  have h9: "edgePressure (arch (ex_env (Found (ex_vertex 3 1 2)) (Num 100) 500 100)) ex_opts ex_pipeline
              (vertexMetricsCache (g_scaler (ex_gathered (Num 100) 500)))
              \<lparr> e_From = ''a'', e_To = ''b'' \<rparr>"
    by (simp add: edgePressure_def model_defs)
  have p: "patchesOf (out_effects (scaleOneVertex ex_opts (ex_env (Found (ex_vertex 3 1 2)) (Num 100) 500 100) ex_scaler ''ns/p-a'')) = [2]"
    using back_pressure_gate [OF h1 h2 h3 h4 h5 h6 h7 h8 h9]
    by (simp add: ex_vertex_def int32_of_int_def)
  have b: "sint (v_GetMinReplicas (ex_vertex 3 1 2)) \<le> sint (2 :: int32)
           \<and> sint (2 :: int32) \<le> sint (v_GetMaxReplicas (ex_vertex 3 1 2))"
    using back_pressure_gate [OF h1 h2 h3 h4 h5 h6 h7 h8 h9] p
    by simp
  have h5': "sint (v_GetMinReplicas (ex_vertex 3 1 2)) < v_GetReplicas (ex_vertex 3 1 2)"
    by (simp add: ex_vertex_def)
  from h1 h2 h3 h4 h5' h6 h7 h8 h9 p b show ?thesis by simp
qed

subsection \<open>C1: the clamp law\<close>

text \<open>
  Claim C1 against the code.  The vertex of the example at 3 replicas, inside its bounds
  3 and 10, has a desired number of 5 and direct back pressure from vertex \<open>b\<close>: the
  evaluation calls \<open>patchVertexReplicas\<close> with 2, which is below the minimum 3.
\<close>

theorem direct_back_pressure_patches_below_min:
  "sint (v_GetMinReplicas (ex_vertex 3 3 2)) \<le> v_GetReplicas (ex_vertex 3 3 2)
   \<and> v_GetReplicas (ex_vertex 3 3 2) \<le> sint (v_GetMaxReplicas (ex_vertex 3 3 2))
   \<and> out_effects (scaleOneVertex ex_opts (ex_env (Found (ex_vertex 3 3 2)) (Num 100) 500 100)
                     ex_scaler ''ns/p-a'')
       = [DialDaemon ''p-daemon-svc'',
          FetchVertexMetrics ''p-daemon-svc'' ''p'' ''a'',
          FetchPipelineBuffer ''p-daemon-svc'' ''p'' ''ns-p-a-0'',
          PatchVertexReplicas 2]
   \<and> sint (2 :: int32) < sint (v_GetMinReplicas (ex_vertex 3 3 2))"
  by (simp add: model_defs)

subsection \<open>C4: the scaling formula\<close>

text \<open>
  Claim C4 against the code.  \<open>desiredReplicas\<close> compares the candidate with
  \<open>int32(pending)\<close>, which keeps the low 32 bits of the pending count.  A source with
  one partition, 2 replicas, rate 1000 and 4294967296 pending messages gets 1 from the
  code, where the formula of the claim gives 429497; a non-source whose pending
  2147483648 exceeds its buffer gets 1, where the formula gives 3.
\<close>

theorem desiredReplicas_truncates_pending:
  "desiredReplicas ex_platform ((ex_vertex 2 1 2)\<lparr> v_IsASource := True \<rparr>)
       [Num 1000] [4294967296] [] [] = Inr 1
   \<and> spec_desiredReplicas True 20 2 2 [(1000, 4294967296, 0, 0)] 1 = 429497
   \<and> desiredReplicas ex_platform (ex_vertex 1 1 2) [Num 100] [2147483648] [800] [250] = Inr 1
   \<and> spec_desiredReplicas False 20 1 2 [(100, 2147483648, 800, 250)] 1 = 3"
  by (simp add: model_defs spec_candidate_def)

end
